theory Spec2Isabelle
  imports Complex_Main "HOL-Library.Char_ord" "HOL-Library.List_Lexorder" "HOL-Library.Log_Nat"
    "HOL-Library.Code_Target_Numeral"
begin

chapter \<open>Phoenix pipeline and dashboard: the incremental-processing core\<close>

text \<open>
  The repository holds a TypeScript dashboard (\<^verbatim>\<open>lib/math.ts\<close>, \<^verbatim>\<open>lib/hyperliquid.ts\<close>, ...)
  and the documentation of a Python pipeline (\<^verbatim>\<open>README.md\<close>, \<^verbatim>\<open>DESIGN_DECISIONS.md\<close>,
  \<^verbatim>\<open>DEMO_GUIDE.md\<close>). The Python modules themselves (\<^verbatim>\<open>transform.py\<close>, \<^verbatim>\<open>coingecko.py\<close>,
  \<^verbatim>\<open>subgraph.py\<close>, \<^verbatim>\<open>io.py\<close>, \<^verbatim>\<open>main.py\<close>) are not among the sources; what the sources
  hold of them are the Python excerpts printed in \<^verbatim>\<open>DESIGN_DECISIONS.md\<close> and \<^verbatim>\<open>README.md\<close>.
  Each definition below says which excerpt or which TypeScript function it embeds; where
  no excerpt exists the definition is marked as modelled from the specification.
\<close>

section \<open>Stablecoin-aware volume (DESIGN\_DECISIONS.md, decisions 5 and 6)\<close>

text \<open>
  Python floats are modelled as exact reals in the pipeline: the properties below are about
  which side of a swap enters the volume, which records are kept and when state changes;
  the rounding of floating-point products is not modelled there.
\<close>

text \<open>
  Decision 6:
  \<^verbatim>\<open>decimals = TOKEN_DECIMALS.get(token_address, 18)  # Default to 18\<close>
  \<^verbatim>\<open>amount_normalized = amount_raw / (10 ** decimals)\<close>
  The table \<^verbatim>\<open>TOKEN_DECIMALS\<close> is printed only in part (``more tokens''), so it is a
  parameter; \<open>TOKEN_DECIMALS_listed\<close> holds the four entries that are printed.
\<close>

definition USDC :: string where
  "USDC = ''0xa0b86991c6218b36c1d19d4a2e9eb0ce3606eb48''"

definition USDT :: string where
  "USDT = ''0xdac17f958d2ee523a2206206994597c13d831ec7''"

definition WBTC :: string where
  "WBTC = ''0x2260fac5e5542a773aa44fbcfedf7c193bc2c599''"

definition WETH :: string where
  "WETH = ''0xc02aaa39b223fe8d0a0e5c4f27ead9083c756cc2''"

definition TOKEN_DECIMALS_listed :: "string \<rightharpoonup> nat" where
  "TOKEN_DECIMALS_listed = [USDC \<mapsto> 6, USDT \<mapsto> 6, WBTC \<mapsto> 8, WETH \<mapsto> 18]"

definition normalize_amount :: "(string \<rightharpoonup> nat) \<Rightarrow> string \<Rightarrow> int \<Rightarrow> real" where
  "normalize_amount token_decimals token_address amount_raw =
     (let decimals = (case token_decimals token_address of Some d \<Rightarrow> d | None \<Rightarrow> 18)
      in real_of_int amount_raw / 10 ^ decimals)"

text \<open>
  Decision 5, the excerpt under ``Logic'':
  \<^verbatim>\<open>if token0_is_stable and token1_is_stable: volume = abs(amount0 * price0)\<close>
  \<^verbatim>\<open>elif token0_is_stable:                     volume = abs(amount0 * price0)\<close>
  \<^verbatim>\<open>elif token1_is_stable:                     volume = abs(amount1 * price1)\<close>
  \<^verbatim>\<open>else: volume = abs(amount0 * price0) + abs(amount1 * price1)\<close>
\<close>

definition usd_volume :: "bool \<Rightarrow> bool \<Rightarrow> real \<Rightarrow> real \<Rightarrow> real \<Rightarrow> real \<Rightarrow> real" where
  "usd_volume token0_is_stable token1_is_stable amount0 price0 amount1 price1 =
     (if token0_is_stable \<and> token1_is_stable then \<bar>amount0 * price0\<bar>
      else if token0_is_stable then \<bar>amount0 * price0\<bar>
      else if token1_is_stable then \<bar>amount1 * price1\<bar>
      else \<bar>amount0 * price0\<bar> + \<bar>amount1 * price1\<bar>)"

text \<open>
  The reference definition, written from the words of the specification (section 4.3):
  both stable, one side; exactly one stable, the stable token's side; neither stable, the
  sum of both sides.
\<close>

definition exactly_one_stable :: "bool \<Rightarrow> bool \<Rightarrow> bool" where
  "exactly_one_stable s0 s1 = (s0 \<noteq> s1)"

definition usd_volume_reference :: "bool \<Rightarrow> bool \<Rightarrow> real \<Rightarrow> real \<Rightarrow> real \<Rightarrow> real \<Rightarrow> real" where
  "usd_volume_reference s0 s1 normalizedAmount0 price0 normalizedAmount1 price1 =
     (if s0 \<and> s1 then \<bar>normalizedAmount0 * price0\<bar>
      else if exactly_one_stable s0 s1 then
        (let normalizedAmountStable = (if s0 then normalizedAmount0 else normalizedAmount1);
             priceStable = (if s0 then price0 else price1)
         in \<bar>normalizedAmountStable * priceStable\<bar>)
      else \<bar>normalizedAmount0 * price0\<bar> + \<bar>normalizedAmount1 * price1\<bar>)"

section \<open>RateLimiter (DESIGN\_DECISIONS.md, decision 2)\<close>

text \<open>
  The class printed under ``How it works'':
  \<^verbatim>\<open>def acquire(self):\<close>
  \<^verbatim>\<open>    now = time.time()\<close>
  \<^verbatim>\<open>    while self.requests and self.requests[0] < now - self.window_seconds:\<close>
  \<^verbatim>\<open>        self.requests.popleft()\<close>
  \<^verbatim>\<open>    if len(self.requests) >= self.max_requests:\<close>
  \<^verbatim>\<open>        wait_time = (self.requests[0] + self.window_seconds) - now\<close>
  \<^verbatim>\<open>        time.sleep(wait_time)\<close>
  \<^verbatim>\<open>    self.requests.append(now)\<close>
  The clock is explicit: \<open>acquire self now\<close> takes the value \<^verbatim>\<open>time.time()\<close> returns at
  the start of the call and gives back the limiter together with the time at which the
  call returns, that is \<open>now\<close> plus the time slept (the other statements take no time).
  Reading \<^verbatim>\<open>self.requests[0]\<close> of an empty deque raises \<^verbatim>\<open>IndexError\<close> and a negative
  argument of \<^verbatim>\<open>time.sleep\<close> raises \<^verbatim>\<open>ValueError\<close>; both are results of the model.
\<close>

datatype py_error = IndexError | ValueError

record RateLimiter =
  max_requests :: int
  window_seconds :: real
  requests :: "real list"

definition RateLimiter_init :: "int \<Rightarrow> real \<Rightarrow> RateLimiter" where
  "RateLimiter_init max_requests' window_seconds' =
     \<lparr>max_requests = max_requests', window_seconds = window_seconds', requests = []\<rparr>"

definition acquire :: "RateLimiter \<Rightarrow> real \<Rightarrow> py_error + (RateLimiter \<times> real)" where
  "acquire self now =
     (let remaining = dropWhile (\<lambda>t. t < now - window_seconds self) (requests self)
      in if max_requests self \<le> int (length remaining) then
           (case remaining of
              [] \<Rightarrow> Inl IndexError
            | oldest # _ \<Rightarrow>
                let wait_time = (oldest + window_seconds self) - now
                in if wait_time < 0 then Inl ValueError
                   else Inr (self\<lparr>requests := remaining @ [now]\<rparr>, now + wait_time))
         else Inr (self\<lparr>requests := remaining @ [now]\<rparr>, now))"

text \<open>
  A single caller issuing one call after the other: the k-th call starts at the k-th given
  time, or when the previous call has returned if that is later. The result lists the
  times at which the calls returned, which is when the guarded request goes out.
\<close>

fun acquire_all ::
  "RateLimiter \<Rightarrow> real \<Rightarrow> real list \<Rightarrow> py_error + (RateLimiter \<times> real list)" where
  "acquire_all self clock [] = Inr (self, [])"
| "acquire_all self clock (t # ts) =
     (case acquire self (max clock t) of
        Inl e \<Rightarrow> Inl e
      | Inr (self', returned) \<Rightarrow>
          (case acquire_all self' returned ts of
             Inl e \<Rightarrow> Inl e
           | Inr (self'', admitted) \<Rightarrow> Inr (self'', returned # admitted)))"

definition admitted_in_window :: "real \<Rightarrow> real \<Rightarrow> real list \<Rightarrow> nat" where
  "admitted_in_window window t admitted =
     length (filter (\<lambda>a. t - window < a \<and> a \<le> t) admitted)"

text \<open>Two bursts, one millisecond between calls: eleven calls from time 0, ten from 60.011.\<close>

definition first_ten :: "real list" where
  "first_ten = [0, 1/1000, 2/1000, 3/1000, 4/1000, 5/1000, 6/1000, 7/1000, 8/1000, 9/1000]"

definition burst1 :: "real list" where
  "burst1 = first_ten @ [10/1000]"

definition burst2 :: "real list" where
  "burst2 = [60011/1000, 60012/1000, 60013/1000, 60014/1000, 60015/1000, 60016/1000,
     60017/1000, 60018/1000, 60019/1000, 60020/1000]"

section \<open>Retry with exponential backoff (DESIGN\_DECISIONS.md, decision 3)\<close>

text \<open>
  The excerpt:
  \<^verbatim>\<open>@retry(stop=stop_after_attempt(3),\<close>
  \<^verbatim>\<open>       wait=wait_exponential_jitter(initial=2, max=10),\<close>
  \<^verbatim>\<open>       retry=retry_if_exception_type((httpx.RequestError, httpx.HTTPStatusError)))\<close>
  \<^verbatim>\<open>def fetch_swaps():\<close>
  \<^verbatim>\<open>    response = client.post(url, json=query)\<close>
  \<^verbatim>\<open>    response.raise_for_status()\<close>
  \<^verbatim>\<open>    return response.json()\<close>
  \<^verbatim>\<open>client.post\<close> either raises \<^verbatim>\<open>httpx.RequestError\<close> (connection failures and timeouts)
  or returns a response; \<^verbatim>\<open>raise_for_status\<close> raises \<^verbatim>\<open>httpx.HTTPStatusError\<close> unless the
  status is a 2xx one, for a 4xx status as for a 5xx one; \<^verbatim>\<open>response.json()\<close> raises a
  decoding error on a malformed body.
\<close>

datatype transport_failure = NetworkIO | Timeout

datatype exception = RequestError transport_failure | HTTPStatusError nat | JSONDecodeError

datatype 'a post_outcome = Raises transport_failure | Response nat "'a option"

definition is_success :: "nat \<Rightarrow> bool" where
  "is_success status_code = (200 \<le> status_code \<and> status_code \<le> 299)"

definition fetch_swaps :: "'a post_outcome \<Rightarrow> exception + 'a" where
  "fetch_swaps posted =
     (case posted of
        Raises failure \<Rightarrow> Inl (RequestError failure)
      | Response status_code body \<Rightarrow>
          if is_success status_code then
            (case body of None \<Rightarrow> Inl JSONDecodeError | Some json \<Rightarrow> Inr json)
          else Inl (HTTPStatusError status_code))"

fun retry_if_exception_type :: "exception \<Rightarrow> bool" where
  "retry_if_exception_type (RequestError failure) = True"
| "retry_if_exception_type (HTTPStatusError status_code) = True"
| "retry_if_exception_type JSONDecodeError = False"

text \<open>
  What the decorator does with this configuration: call the function; return its result;
  re-raise at once an exception the \<^verbatim>\<open>retry\<close> predicate rejects; after a retryable
  exception stop with \<^verbatim>\<open>RetryError\<close> (holding the last exception) once the attempt number
  has reached \<^verbatim>\<open>stop_after_attempt\<close>, else sleep for what the \<^verbatim>\<open>wait\<close> strategy gives for
  this attempt number and call again. Attempt numbers start at 1. The function is given
  as its outcome at each attempt, the wait strategy as a function of the attempt number.
\<close>

datatype 'a retry_outcome = Returned 'a | Reraised exception | RetryError exception

record 'a retry_run =
  outcome :: "'a retry_outcome"
  attempts :: nat
  sleeps :: "real list"

function retrying ::
  "nat \<Rightarrow> (nat \<Rightarrow> real) \<Rightarrow> (nat \<Rightarrow> exception + 'a) \<Rightarrow> nat \<Rightarrow> 'a retry_run" where
  "retrying stop_after_attempt wait fn attempt_number =
     (case fn attempt_number of
        Inr result \<Rightarrow> \<lparr>outcome = Returned result, attempts = attempt_number, sleeps = []\<rparr>
      | Inl e \<Rightarrow>
          if \<not> retry_if_exception_type e then
            \<lparr>outcome = Reraised e, attempts = attempt_number, sleeps = []\<rparr>
          else if stop_after_attempt \<le> attempt_number then
            \<lparr>outcome = RetryError e, attempts = attempt_number, sleeps = []\<rparr>
          else
            (let rest = retrying stop_after_attempt wait fn (attempt_number + 1)
             in rest\<lparr>sleeps := wait attempt_number # sleeps rest\<rparr>))"
  by pat_completeness auto
termination
  by (relation "measure (\<lambda>(stop_after_attempt, wait, fn, attempt_number).
        stop_after_attempt - attempt_number)") auto

declare retrying.simps [simp del]

definition retry_call ::
  "nat \<Rightarrow> (nat \<Rightarrow> real) \<Rightarrow> (nat \<Rightarrow> exception + 'a) \<Rightarrow> 'a retry_run" where
  "retry_call stop_after_attempt wait fn = retrying stop_after_attempt wait fn 1"

text \<open>
  \<^verbatim>\<open>calculateReconnectDelay\<close> of \<^verbatim>\<open>lib/hyperliquid.ts\<close>, the backoff of the dashboard's
  reconnection: \<^verbatim>\<open>Math.min(baseDelay * Math.pow(backoffMultiplier, reconnectAttempts),
  maxDelay)\<close> plus \<^verbatim>\<open>Math.random() * 0.25 * exponentialDelay\<close>. The draw of
  \<^verbatim>\<open>Math.random()\<close>, a number in [0, 1), is an argument; milliseconds are reals.
\<close>

definition calculateReconnectDelay :: "nat \<Rightarrow> real \<Rightarrow> real" where
  "calculateReconnectDelay reconnectAttempts random_draw =
     (let baseDelay = 1000; maxDelay = 30000; backoffMultiplier = 2;
          exponentialDelay = min (baseDelay * backoffMultiplier ^ reconnectAttempts) maxDelay;
          jitter = random_draw * 0.25 * exponentialDelay
      in exponentialDelay + jitter)"


text \<open>Operations and draws for the examples.\<close>

definition always_404 :: "nat \<Rightarrow> exception + unit" where
  "always_404 attempt_number = fetch_swaps (Response 404 None)"

definition always_503 :: "nat \<Rightarrow> exception + unit" where
  "always_503 attempt_number = fetch_swaps (Response 503 None)"


definition always_malformed :: "nat \<Rightarrow> exception + unit" where
  "always_malformed attempt_number = fetch_swaps (Response 200 None)"



section \<open>Data model of the pipeline (specification, section 3)\<close>

text \<open>
  Modelled from the spec: a raw fetched swap payload. The module that decodes the
  subgraph's answer (\<^verbatim>\<open>subgraph.py\<close>, \<^verbatim>\<open>transform.py\<close>) is not among the sources; the fields
  are those of SwapRecord in section 3, each possibly absent and still a string.
\<close>

record RawSwap =
  raw_txHash :: "string option"
  raw_blockNumber :: "string option"
  raw_timestamp :: "string option"
  raw_token0 :: "string option"
  raw_token1 :: "string option"
  raw_amount0 :: "string option"
  raw_amount1 :: "string option"

text \<open>
  Modelled from the spec: SwapRecord of section 3 (the Python class is not among the
  sources). The timestamp is informational and carried as fetched.
\<close>

record SwapRecord =
  txHash :: string
  blockNumber :: nat
  timestamp :: "string option"
  token0Address :: string
  token1Address :: string
  amount0Raw :: int
  amount1Raw :: int

text \<open>
  Modelled from the spec: EnrichedSwap of section 3, a SwapRecord plus the two prices, the
  volume (all three absent when unresolved) and the pair key.
\<close>

record EnrichedSwap = SwapRecord +
  priceUSD0 :: "real option"
  priceUSD1 :: "real option"
  usdVolume :: "real option"
  pairKey :: string

text \<open>Modelled from the spec: PairSummary of section 3 (its \<open>pairKey\<close> is \<open>summary_pairKey\<close>).\<close>

record PairSummary =
  summary_pairKey :: string
  count :: nat
  totalUSD :: real
  avgUSD :: real

text \<open>Modelled from the spec: Checkpoint of section 3, the content of \<^verbatim>\<open>state.json\<close>.\<close>

record Checkpoint =
  lastProcessedBlock :: nat
  lastUpdatedAt :: nat

section \<open>SwapNormalizer (specification, section 4.4)\<close>

text \<open>
  Modelled from the spec: reading a decimal integer, an optional sign followed by one or
  more digits. The pipeline's own conversion (in \<^verbatim>\<open>transform.py\<close>) is not among the sources.
\<close>

definition digit_value :: "char \<Rightarrow> nat option" where
  "digit_value c = map_of (zip ''0123456789'' [0, 1, 2, 3, 4, 5, 6, 7, 8, 9]) c"

text \<open>Modelled from the spec: the digits of a non-negative integer, most significant first.\<close>

fun parse_digits :: "nat \<Rightarrow> string \<Rightarrow> nat option" where
  "parse_digits acc [] = Some acc"
| "parse_digits acc (c # cs) =
     (case digit_value c of None \<Rightarrow> None | Some d \<Rightarrow> parse_digits (10 * acc + d) cs)"

text \<open>Modelled from the spec: a non-empty string of digits.\<close>

definition parse_nat :: "string \<Rightarrow> nat option" where
  "parse_nat s = (if s = [] then None else parse_digits 0 s)"

text \<open>Modelled from the spec: ``parses as an integer (sign preserved)'', section 4.4.\<close>

definition parse_int :: "string \<Rightarrow> int option" where
  "parse_int s =
     (case s of
        [] \<Rightarrow> None
      | c # cs \<Rightarrow>
          if c = CHR ''-'' then map_option (\<lambda>n. - int n) (parse_nat cs)
          else if c = CHR ''+'' then map_option int (parse_nat cs)
          else map_option int (parse_nat s))"

text \<open>Modelled from the spec: a numeric field, absent or a string that must parse.\<close>

definition parse_field :: "string option \<Rightarrow> int option" where
  "parse_field field = (case field of None \<Rightarrow> None | Some s \<Rightarrow> parse_int s)"

text \<open>Modelled from the spec: ``present and non-empty'', section 4.4.\<close>

definition non_empty :: "string option \<Rightarrow> string option" where
  "non_empty field = (case field of None \<Rightarrow> None | Some s \<Rightarrow> if s = [] then None else Some s)"

text \<open>
  Modelled from the spec: the validation rules of section 4.4 on one payload (the
  validator of \<^verbatim>\<open>transform.py\<close> is not among the sources): txHash present (an empty
  string identifies no transaction and counts as absent), blockNumber a non-negative
  integer, both amounts integers with their sign, both token addresses
  present and non-empty. Uniqueness of txHash is checked over the batch, below.
\<close>

definition validate :: "RawSwap \<Rightarrow> SwapRecord option" where
  "validate raw =
     (case non_empty (raw_txHash raw) of None \<Rightarrow> None | Some h \<Rightarrow>
      case parse_field (raw_blockNumber raw) of None \<Rightarrow> None | Some b \<Rightarrow>
      if b < 0 then None else
      case parse_field (raw_amount0 raw) of None \<Rightarrow> None | Some a0 \<Rightarrow>
      case parse_field (raw_amount1 raw) of None \<Rightarrow> None | Some a1 \<Rightarrow>
      case non_empty (raw_token0 raw) of None \<Rightarrow> None | Some t0 \<Rightarrow>
      case non_empty (raw_token1 raw) of None \<Rightarrow> None | Some t1 \<Rightarrow>
        Some \<lparr>txHash = h, blockNumber = nat b, timestamp = raw_timestamp raw,
              token0Address = t0, token1Address = t1, amount0Raw = a0, amount1Raw = a1\<rparr>)"

text \<open>
  Modelled from the spec: the normalizer over a batch (section 4.4). A malformed payload
  is dropped and counted as rejected; a well-formed payload whose txHash an earlier
  retained record of the batch has already collapses into that first occurrence and is
  not counted. \<open>seen\<close> holds the hashes retained so far.
\<close>

fun normalize_batch :: "string list \<Rightarrow> RawSwap list \<Rightarrow> SwapRecord list \<times> nat" where
  "normalize_batch seen [] = ([], 0)"
| "normalize_batch seen (raw # raws) =
     (case validate raw of
        None \<Rightarrow>
          (case normalize_batch seen raws of
             (records, rejected_count) \<Rightarrow> (records, rejected_count + 1))
      | Some s \<Rightarrow>
          if txHash s \<in> set seen then normalize_batch seen raws
          else (case normalize_batch (txHash s # seen) raws of
                  (records, rejected_count) \<Rightarrow> (s # records, rejected_count)))"

text \<open>Modelled from the spec: the normalizer's entry point, on a whole fetched batch.\<close>

definition normalize_swaps :: "RawSwap list \<Rightarrow> SwapRecord list \<times> nat" where
  "normalize_swaps raws = normalize_batch [] raws"



section \<open>Filtering, price resolution, enrichment and aggregation\<close>

text \<open>
  Modelled from the spec: the Filtering stage of section 4.6. README.md shows only the call
  \<^verbatim>\<open>filter_swaps_by_block(swaps, last_processed_block=18000000)\<close> and its effect (``skip
  block 18000000 and earlier''); the function's body in \<^verbatim>\<open>io.py\<close> is not among the sources.
\<close>

definition filter_swaps_by_block :: "SwapRecord list \<Rightarrow> nat \<Rightarrow> SwapRecord list" where
  "filter_swaps_by_block swaps last_processed_block =
     filter (\<lambda>s. last_processed_block < blockNumber s) swaps"

text \<open>Modelled from the spec: TokenCollection (section 4.6), the tokens of the batch, once each.\<close>

definition collect_tokens :: "SwapRecord list \<Rightarrow> string list" where
  "collect_tokens swaps = remdups (concat (map (\<lambda>s. [token0Address s, token1Address s]) swaps))"

text \<open>
  The tables and the oracle that enrichment reads. \<^verbatim>\<open>TOKEN_MAP\<close>, \<^verbatim>\<open>TOKEN_DECIMALS\<close> and the
  stablecoin list are printed only in part, and the oracle's answers are the environment's:
  all are parameters. An oracle call that fails for good or knows no price answers \<open>None\<close>;
  \<^verbatim>\<open>get_price\<close> is asked with whatever identifier the lookup gave, \<^verbatim>\<open>None\<close> included.
\<close>

record PriceSources =
  TOKEN_MAP :: "string \<rightharpoonup> string"
  search_token_by_address :: "string \<rightharpoonup> string"
  get_price :: "string option \<rightharpoonup> real"
  TOKEN_DECIMALS :: "string \<rightharpoonup> nat"
  is_stable :: "string \<Rightarrow> bool"

text \<open>
  Decision 9 of DESIGN\_DECISIONS.md, the ``hybrid approach'':
  \<^verbatim>\<open>coingecko_id = TOKEN_MAP.get(token_address)\<close>
  \<^verbatim>\<open>if coingecko_id: price = coingecko.get_price(coingecko_id)\<close>
  \<^verbatim>\<open>else: coingecko_id = coingecko.search_token_by_address(token_address)\<close>
  \<^verbatim>\<open>      price = coingecko.get_price(coingecko_id)\<close>
  The test \<^verbatim>\<open>if coingecko_id\<close> fails for \<^verbatim>\<open>None\<close> and for the empty string.
\<close>

definition resolve_price :: "PriceSources \<Rightarrow> string \<Rightarrow> real option" where
  "resolve_price src token_address =
     (let coingecko_id = TOKEN_MAP src token_address
      in if coingecko_id \<noteq> None \<and> coingecko_id \<noteq> Some [] then get_price src coingecko_id
         else get_price src (search_token_by_address src token_address))"

text \<open>
  Modelled from the spec: the pair key of section 3, ``sorted concatenation'' of the two
  token addresses (the code building it is not among the sources).
\<close>

definition pair_key :: "string \<Rightarrow> string \<Rightarrow> string" where
  "pair_key a b = (if a \<le> b then a @ ''-'' @ b else b @ ''-'' @ a)"

text \<open>
  Modelled from the spec: enrichment of one swap (section 4.3; \<^verbatim>\<open>enrich_swaps\<close> of
  \<^verbatim>\<open>transform.py\<close> is not among the sources). Both prices are resolved, the amounts are
  normalized, and the volume is that of \<open>usd_volume\<close> when both prices are resolved and
  null otherwise.
\<close>

definition enrich_swap :: "PriceSources \<Rightarrow> SwapRecord \<Rightarrow> EnrichedSwap" where
  "enrich_swap src s =
     (let price0 = resolve_price src (token0Address s);
          price1 = resolve_price src (token1Address s);
          amount0 = normalize_amount (TOKEN_DECIMALS src) (token0Address s) (amount0Raw s);
          amount1 = normalize_amount (TOKEN_DECIMALS src) (token1Address s) (amount1Raw s);
          volume =
            (case price0 of None \<Rightarrow> None | Some p0 \<Rightarrow>
             case price1 of None \<Rightarrow> None | Some p1 \<Rightarrow>
               Some (usd_volume (is_stable src (token0Address s)) (is_stable src (token1Address s))
                       amount0 p0 amount1 p1))
      in \<lparr>txHash = txHash s, blockNumber = blockNumber s, timestamp = timestamp s,
          token0Address = token0Address s, token1Address = token1Address s,
          amount0Raw = amount0Raw s, amount1Raw = amount1Raw s,
          priceUSD0 = price0, priceUSD1 = price1, usdVolume = volume,
          pairKey = pair_key (token0Address s) (token1Address s)\<rparr>)"

text \<open>
  Modelled from the spec: the PriceEnrichment stage (section 4.6) over the batch: a swap
  whose volume is null is left out of the enriched list and counted as skipped.
\<close>

fun enrich_swaps :: "PriceSources \<Rightarrow> SwapRecord list \<Rightarrow> EnrichedSwap list \<times> nat" where
  "enrich_swaps src [] = ([], 0)"
| "enrich_swaps src (s # swaps) =
     (case enrich_swaps src swaps of
        (enriched, skipped_count) \<Rightarrow>
          (case usdVolume (enrich_swap src s) of
             None \<Rightarrow> (enriched, skipped_count + 1)
           | Some v \<Rightarrow> (enrich_swap src s # enriched, skipped_count)))"

text \<open>A swap with at least one price unresolved after the table and the oracle.\<close>

definition unresolved :: "PriceSources \<Rightarrow> SwapRecord \<Rightarrow> bool" where
  "unresolved src s =
     (resolve_price src (token0Address s) = None \<or> resolve_price src (token1Address s) = None)"

text \<open>Modelled from the spec: one PairSummary row (section 3), over the swaps of a pair.\<close>

definition pair_summary :: "EnrichedSwap list \<Rightarrow> string \<Rightarrow> PairSummary" where
  "pair_summary enriched key =
     (let volumes = List.map_filter usdVolume (filter (\<lambda>e. pairKey e = key) enriched);
          total = sum_list volumes
      in \<lparr>summary_pairKey = key, count = length volumes, totalUSD = total,
          avgUSD = total / real (length volumes)\<rparr>)"

text \<open>Modelled from the spec: the order of the summary, totalUSD descending, then pairKey.\<close>

definition summary_before :: "PairSummary \<Rightarrow> PairSummary \<Rightarrow> bool" where
  "summary_before a b =
     (totalUSD b < totalUSD a \<or> (totalUSD a = totalUSD b \<and> summary_pairKey a \<le> summary_pairKey b))"

text \<open>Modelled from the spec: insertion into a summary kept in that order.\<close>

fun insert_summary :: "PairSummary \<Rightarrow> PairSummary list \<Rightarrow> PairSummary list" where
  "insert_summary a [] = [a]"
| "insert_summary a (b # bs) =
     (if summary_before a b then a # b # bs else b # insert_summary a bs)"

text \<open>
  Modelled from the spec: the Aggregating stage (section 4.6), grouping the enriched swaps,
  those without a volume excluded, by pair key (\<^verbatim>\<open>summarize\<close> of \<^verbatim>\<open>transform.py\<close> is not among
  the sources).
\<close>

definition summarize :: "EnrichedSwap list \<Rightarrow> PairSummary list" where
  "summarize enriched =
     (let kept = filter (\<lambda>e. usdVolume e \<noteq> None) enriched
      in foldr insert_summary (map (pair_summary kept) (remdups (map pairKey kept))) [])"

text \<open>Modelled from the spec: the largest block number of a batch (CheckpointUpdate, 4.6).\<close>

definition max_block :: "SwapRecord list \<Rightarrow> nat" where
  "max_block swaps = fold max (map blockNumber swaps) 0"

section \<open>StateStore and PipelineOrchestrator (specification, sections 4.5 and 4.6)\<close>

datatype fetch_error = RetriesExhausted | PermanentFailure

datatype stage =
  Loading | Fetching | Filtering | TokenCollection | PriceEnrichment | Aggregating | Writing
  | CheckpointUpdate

datatype final_state = Done | Aborted stage

text \<open>Modelled from the spec: the run statistics of the Done state (elapsed time left out).\<close>

record RunStats =
  fetched :: nat
  enriched_count :: nat
  skipped :: nat
  rejected :: nat
  unique_tokens :: nat
  pairs :: nat

text \<open>
  Modelled from the spec: what a run leaves behind, the checkpoint file (absent, or
  unreadable, is \<open>None\<close>) and the two outputs of the sink.
\<close>

record Store =
  checkpoint :: "Checkpoint option"
  swaps_out :: "EnrichedSwap list option"
  summary_out :: "PairSummary list option"

text \<open>
  Modelled from the spec: what a run meets: whether the configuration loads, what the
  fetch (retries included) ends with, the price sources, whether each of the two writes of
  the sink succeeds, and the time of the run.
\<close>

record Env =
  config_ok :: bool
  fetch_result :: "fetch_error + RawSwap list"
  sources :: PriceSources
  write_records_ok :: bool
  write_summary_ok :: bool
  run_time :: nat

text \<open>Modelled from the spec: \<open>readCheckpoint\<close> of section 4.5, zero when there is none.\<close>

definition readCheckpoint :: "Store \<Rightarrow> Checkpoint" where
  "readCheckpoint store =
     (case checkpoint store of
        None \<Rightarrow> \<lparr>lastProcessedBlock = 0, lastUpdatedAt = 0\<rparr>
      | Some c \<Rightarrow> c)"

text \<open>Modelled from the spec: \<open>writeCheckpoint\<close> of section 4.5 (the write is atomic).\<close>

definition writeCheckpoint :: "Store \<Rightarrow> nat \<Rightarrow> nat \<Rightarrow> Store" where
  "writeCheckpoint store block time =
     store\<lparr>checkpoint := Some \<lparr>lastProcessedBlock = block, lastUpdatedAt = time\<rparr>\<rparr>"

definition zero_stats :: RunStats where
  "zero_stats = \<lparr>fetched = 0, enriched_count = 0, skipped = 0, rejected = 0, unique_tokens = 0,
     pairs = 0\<rparr>"

text \<open>
  Modelled from the spec: the orchestrator's state machine of section 4.6 (\<^verbatim>\<open>main.py\<close> is not
  among the sources; the ``Pipeline Flow'' and ``Code Flow Example'' of README.md give the
  same order of steps). Loading; Fetching, an empty result ending the run; normalization;
  Filtering by the checkpoint, an empty batch ending the run with nothing written;
  TokenCollection; PriceEnrichment; Aggregating; Writing, first the records, then the
  summary, a failure of either aborting the run; CheckpointUpdate.
\<close>

definition run :: "Env \<Rightarrow> Store \<Rightarrow> final_state \<times> RunStats \<times> Store" where
  "run env store =
     (if \<not> config_ok env then (Aborted Loading, zero_stats, store)
      else
        let cp = readCheckpoint store in
        case fetch_result env of
          Inl e \<Rightarrow> (Aborted Fetching, zero_stats, store)
        | Inr raws \<Rightarrow>
            if raws = [] then (Done, zero_stats, store)
            else
              case normalize_swaps raws of (records, rejected_count) \<Rightarrow>
              let batch = filter_swaps_by_block records (lastProcessedBlock cp);
                  stats = zero_stats\<lparr>fetched := length raws, rejected := rejected_count\<rparr>
              in if batch = [] then (Done, stats, store)
                 else
                   let tokens = collect_tokens batch in
                   case enrich_swaps (sources env) batch of (enriched, skipped_count) \<Rightarrow>
                   let summary = summarize enriched;
                       stats' = stats\<lparr>enriched_count := length enriched, skipped := skipped_count,
                                  unique_tokens := length tokens, pairs := length summary\<rparr>
                   in if \<not> write_records_ok env then (Aborted Writing, stats', store)
                      else
                        let store1 = store\<lparr>swaps_out := Some enriched\<rparr>
                        in if \<not> write_summary_ok env then (Aborted Writing, stats', store1)
                           else
                             let store2 = store1\<lparr>summary_out := Some summary\<rparr>
                             in (Done, stats',
                                 writeCheckpoint store2 (max_block batch) (run_time env)))"

text \<open>The batch a run processes, and the statistics of a run that reaches Writing.\<close>

definition batch_of :: "RawSwap list \<Rightarrow> Store \<Rightarrow> SwapRecord list" where
  "batch_of raws store =
     filter_swaps_by_block (fst (normalize_swaps raws)) (lastProcessedBlock (readCheckpoint store))"

definition stats_of :: "Env \<Rightarrow> RawSwap list \<Rightarrow> SwapRecord list \<Rightarrow> RunStats" where
  "stats_of env raws batch =
     \<lparr>fetched = length raws,
      enriched_count = length (fst (enrich_swaps (sources env) batch)),
      skipped = snd (enrich_swaps (sources env) batch),
      rejected = snd (normalize_swaps raws),
      unique_tokens = length (collect_tokens batch),
      pairs = length (summarize (fst (enrich_swaps (sources env) batch)))\<rparr>"

subsection \<open>Example data\<close>

text \<open>
  A fetched batch after the sample swaps of DEMO\_GUIDE.md: a WETH/USDC swap with a
  negative amount, a payload without \<^verbatim>\<open>amount1\<close>, a WBTC/USDC swap, and the first swap
  again. The price sources know WETH and USDC; WBTC has no price.
\<close>

definition weth_raw :: RawSwap where
  "weth_raw =
     \<lparr>raw_txHash = Some ''0x1a2b'', raw_blockNumber = Some ''18500120'',
      raw_timestamp = Some ''1698765432'', raw_token0 = Some WETH, raw_token1 = Some USDC,
      raw_amount0 = Some ''1000000000000000000'', raw_amount1 = Some ''-2000000000''\<rparr>"

definition weth_swap :: SwapRecord where
  "weth_swap =
     \<lparr>txHash = ''0x1a2b'', blockNumber = 18500120, timestamp = Some ''1698765432'',
      token0Address = WETH, token1Address = USDC,
      amount0Raw = 1000000000000000000, amount1Raw = - 2000000000\<rparr>"

definition incomplete_raw :: RawSwap where
  "incomplete_raw =
     \<lparr>raw_txHash = Some ''0x2b3c'', raw_blockNumber = Some ''18500125'',
      raw_timestamp = Some ''1698765532'', raw_token0 = Some WETH, raw_token1 = Some USDC,
      raw_amount0 = Some ''2000000000000000000'', raw_amount1 = None\<rparr>"

definition wbtc_raw :: RawSwap where
  "wbtc_raw =
     \<lparr>raw_txHash = Some ''0x3c4d'', raw_blockNumber = Some ''18500130'',
      raw_timestamp = Some ''1698765632'', raw_token0 = Some WBTC, raw_token1 = Some USDC,
      raw_amount0 = Some ''50000000'', raw_amount1 = Some ''-20000000000''\<rparr>"

definition wbtc_swap :: SwapRecord where
  "wbtc_swap =
     \<lparr>txHash = ''0x3c4d'', blockNumber = 18500130, timestamp = Some ''1698765632'',
      token0Address = WBTC, token1Address = USDC,
      amount0Raw = 50000000, amount1Raw = - 20000000000\<rparr>"

definition no_hash_raw :: RawSwap where
  "no_hash_raw =
     \<lparr>raw_txHash = None, raw_blockNumber = Some ''18500120'',
      raw_timestamp = Some ''1698765432'', raw_token0 = Some WETH, raw_token1 = Some USDC,
      raw_amount0 = Some ''1000000000000000000'', raw_amount1 = Some ''-2000000000''\<rparr>"



definition demo_raws :: "RawSwap list" where
  "demo_raws = [weth_raw, incomplete_raw, wbtc_raw, weth_raw]"

definition demo_stable :: "string \<Rightarrow> bool" where
  "demo_stable token_address = (token_address = USDC \<or> token_address = USDT)"

definition demo_sources :: PriceSources where
  "demo_sources =
     \<lparr>TOKEN_MAP = [WETH \<mapsto> ''weth'', USDC \<mapsto> ''usd-coin''],
      search_token_by_address = Map.empty,
      get_price = [Some ''weth'' \<mapsto> 2000, Some ''usd-coin'' \<mapsto> 1],
      TOKEN_DECIMALS = TOKEN_DECIMALS_listed,
      is_stable = demo_stable\<rparr>"

definition demo_env :: Env where
  "demo_env = \<lparr>config_ok = True, fetch_result = Inr demo_raws, sources = demo_sources,
     write_records_ok = True, write_summary_ok = True, run_time = 1700000000\<rparr>"

definition failing_sink_env :: Env where
  "failing_sink_env = \<lparr>config_ok = True, fetch_result = Inr demo_raws, sources = demo_sources,
     write_records_ok = True, write_summary_ok = False, run_time = 1700000000\<rparr>"

definition empty_store :: Store where
  "empty_store = \<lparr>checkpoint = None, swaps_out = None, summary_out = None\<rparr>"

definition demo_enriched :: "EnrichedSwap list" where
  "demo_enriched = fst (enrich_swaps demo_sources [weth_swap, wbtc_swap])"

definition demo_store :: Store where
  "demo_store =
     \<lparr>checkpoint = Some \<lparr>lastProcessedBlock = 18500130, lastUpdatedAt = 1700000000\<rparr>,
      swaps_out = Some demo_enriched, summary_out = Some (summarize demo_enriched)\<rparr>"

text \<open>
  The three swaps of the specification's volume examples, in raw units: 1 WETH (18
  decimals, 2000 dollars) against 2000 USDC (6 decimals, 1 dollar) is \<open>weth_swap\<close>; 1000
  USDC against 999 USDT, both stable; 1 WETH against 5 UNI (no entry in the decimals
  table, hence 18 decimals; 10 dollars), neither stable.
\<close>

definition UNI :: string where
  "UNI = ''0x1f9840a85d5af5bf1d1762f925bdaddc4201f984''"

definition volume_sources :: PriceSources where
  "volume_sources =
     \<lparr>TOKEN_MAP = [WETH \<mapsto> ''weth'', USDC \<mapsto> ''usd-coin'', USDT \<mapsto> ''tether''],
      search_token_by_address = [UNI \<mapsto> ''uniswap''],
      get_price = [Some ''weth'' \<mapsto> 2000, Some ''usd-coin'' \<mapsto> 1, Some ''tether'' \<mapsto> 1,
        Some ''uniswap'' \<mapsto> 10],
      TOKEN_DECIMALS = TOKEN_DECIMALS_listed,
      is_stable = demo_stable\<rparr>"

definition both_stable_swap :: SwapRecord where
  "both_stable_swap =
     \<lparr>txHash = ''0x4d5e'', blockNumber = 18500140, timestamp = None,
      token0Address = USDC, token1Address = USDT,
      amount0Raw = 1000000000, amount1Raw = - 999000000\<rparr>"

definition sum_both_swap :: SwapRecord where
  "sum_both_swap =
     \<lparr>txHash = ''0x5e6f'', blockNumber = 18500150, timestamp = None,
      token0Address = WETH, token1Address = UNI,
      amount0Raw = 1000000000000000000, amount1Raw = - 5000000000000000000\<rparr>"
section \<open>JavaScript numbers and the P\&L of a position (lib/math.ts)\<close>

text \<open>
  \<^verbatim>\<open>calculatePnLWithSide\<close> guards against NaN and Infinity, so its numbers are modelled as
  IEEE 754 doubles by value: NaN, the two infinities, negative zero, or a finite real,
  \<open>Fin 0\<close> being positive zero. A finite result of an operation is the exact result rounded
  to the nearest double, ties to even; it is an infinity when the exact result has
  magnitude at least \<open>2^1024 - 2^970\<close>, and a zero with the sign of the exact result when
  it rounds to zero.
\<close>

datatype number = NaN | PosInfinity | NegInfinity | NegZero | Fin real

text \<open>The binary exponent \<open>\<lfloor>log\<^sub>2 m\<rfloor>\<close> of a positive magnitude, computed on integers.\<close>

definition floor_log2 :: "real \<Rightarrow> int" where
  "floor_log2 m =
     (if 1 \<le> m then bitlen \<lfloor>m\<rfloor> - 1 else - bitlen (\<lceil>1 / m\<rceil> - 1))"

definition round_half_even :: "real \<Rightarrow> int" where
  "round_half_even y =
     (let f = \<lfloor>y\<rfloor>; d = y - of_int f
      in if d < 1 / 2 then f else if 1 / 2 < d then f + 1 else if even f then f else f + 1)"

text \<open>
  Rounding of a positive magnitude to 53 significant bits; below \<open>2^-1022\<close> the spacing
  of the subnormal numbers, \<open>2^-1074\<close>, is used.
\<close>

definition round_magnitude :: "real \<Rightarrow> real" where
  "round_magnitude m =
     (let quantum = 2 powi (max (floor_log2 m) (- 1022) - 52)
      in of_int (round_half_even (m / quantum)) * quantum)"

definition infinity_of :: "bool \<Rightarrow> number" where
  "infinity_of negative = (if negative then NegInfinity else PosInfinity)"

definition signed_zero :: "bool \<Rightarrow> number" where
  "signed_zero negative = (if negative then NegZero else Fin 0)"

text \<open>The double for an exact result given by its sign and its magnitude.\<close>

definition fl_signed :: "bool \<Rightarrow> real \<Rightarrow> number" where
  "fl_signed negative m =
     (if 2 ^ 1024 - 2 ^ 970 \<le> m then infinity_of negative
      else let r = (if m = 0 then 0 else round_magnitude m)
           in if r = 0 then signed_zero negative
              else Fin (if negative then - r else r))"

text \<open>The double for an exact result that is a real other than zero (\<open>+0\<close> at zero).\<close>

definition fl :: "real \<Rightarrow> number" where
  "fl x = fl_signed (x < 0) \<bar>x\<bar>"

text \<open>The sign bit, the magnitude and the value of a number, and whether it is a zero.\<close>

fun is_negative :: "number \<Rightarrow> bool" where
  "is_negative NegInfinity = True"
| "is_negative NegZero = True"
| "is_negative (Fin x) = (x < 0)"
| "is_negative NaN = False"
| "is_negative PosInfinity = False"

fun real_value :: "number \<Rightarrow> real" where
  "real_value (Fin x) = x"
| "real_value NegZero = 0"
| "real_value NaN = 0"
| "real_value PosInfinity = 0"
| "real_value NegInfinity = 0"

definition magnitude :: "number \<Rightarrow> real" where
  "magnitude a = \<bar>real_value a\<bar>"

fun is_zero :: "number \<Rightarrow> bool" where
  "is_zero (Fin x) = (x = 0)"
| "is_zero NegZero = True"
| "is_zero NaN = False"
| "is_zero PosInfinity = False"
| "is_zero NegInfinity = False"

text \<open>The global \<^verbatim>\<open>isFinite\<close>, unary minus, \<^verbatim>\<open>Math.abs\<close>, \<^verbatim>\<open><=\<close> and \<^verbatim>\<open>===\<close> on numbers.\<close>

fun isFinite :: "number \<Rightarrow> bool" where
  "isFinite (Fin x) = True"
| "isFinite NegZero = True"
| "isFinite NaN = False"
| "isFinite PosInfinity = False"
| "isFinite NegInfinity = False"

fun js_neg :: "number \<Rightarrow> number" where
  "js_neg NaN = NaN"
| "js_neg PosInfinity = NegInfinity"
| "js_neg NegInfinity = PosInfinity"
| "js_neg NegZero = Fin 0"
| "js_neg (Fin x) = (if x = 0 then NegZero else Fin (- x))"

fun js_abs :: "number \<Rightarrow> number" where
  "js_abs NaN = NaN"
| "js_abs PosInfinity = PosInfinity"
| "js_abs NegInfinity = PosInfinity"
| "js_abs NegZero = Fin 0"
| "js_abs (Fin x) = Fin \<bar>x\<bar>"

definition js_le :: "number \<Rightarrow> number \<Rightarrow> bool" where
  "js_le a b =
     (if a = NaN \<or> b = NaN then False
      else if a = NegInfinity \<or> b = PosInfinity then True
      else if a = PosInfinity \<or> b = NegInfinity then False
      else real_value a \<le> real_value b)"

definition js_strict_eq :: "number \<Rightarrow> number \<Rightarrow> bool" where
  "js_strict_eq a b = (a \<noteq> NaN \<and> b \<noteq> NaN \<and> (a = b \<or> (is_zero a \<and> is_zero b)))"

text \<open>
  The operators \<^verbatim>\<open>-\<close>, \<^verbatim>\<open>*\<close> and \<^verbatim>\<open>/\<close> on numbers. A difference that is exactly zero is
  \<open>+0\<close>, except \<open>-0 - (+0)\<close>, which is \<open>-0\<close>; the sign of a product or quotient is the
  exclusive or of the signs of its operands.
\<close>

definition js_sub :: "number \<Rightarrow> number \<Rightarrow> number" where
  "js_sub a b =
     (if a = NaN \<or> b = NaN then NaN
      else if isFinite a \<and> isFinite b then
        (let d = real_value a - real_value b
         in if d = 0 then signed_zero (a = NegZero \<and> b = Fin 0) else fl d)
      else if isFinite b then a
      else if isFinite a then js_neg b
      else if a = b then NaN
      else a)"

definition js_mul :: "number \<Rightarrow> number \<Rightarrow> number" where
  "js_mul a b =
     (if a = NaN \<or> b = NaN then NaN
      else if isFinite a \<and> isFinite b then
        fl_signed (is_negative a \<noteq> is_negative b) (magnitude a * magnitude b)
      else if is_zero a \<or> is_zero b then NaN
      else infinity_of (is_negative a \<noteq> is_negative b))"

definition js_div :: "number \<Rightarrow> number \<Rightarrow> number" where
  "js_div a b =
     (if a = NaN \<or> b = NaN then NaN
      else if isFinite a \<and> isFinite b then
        (if is_zero b then
           (if is_zero a then NaN else infinity_of (is_negative a \<noteq> is_negative b))
         else fl_signed (is_negative a \<noteq> is_negative b) (magnitude a / magnitude b))
      else if isFinite a then signed_zero (is_negative a \<noteq> is_negative b)
      else if isFinite b then infinity_of (is_negative a \<noteq> is_negative b)
      else NaN)"

text \<open>
  \<^verbatim>\<open>parseFloat(x.toFixed(2))\<close>. \<^verbatim>\<open>toFixed\<close> prints NaN and the infinities by name and
  \<^verbatim>\<open>parseFloat\<close> reads them back; a magnitude of \<open>10^21\<close> or more is printed as by
  \<^verbatim>\<open>String\<close>, which reads back as the same number; otherwise the digits are those of the
  integer \<open>n\<close> for which \<open>n / 100\<close> is nearest to the magnitude (the larger of two), after
  a minus sign when the number is less than zero, and \<^verbatim>\<open>parseFloat\<close> gives the double
  nearest to that decimal: \<open>-0.001\<close> is printed as \<^verbatim>\<open>-0.00\<close> and read back as \<open>-0\<close>, while
  \<open>-0\<close> itself is printed as \<^verbatim>\<open>0.00\<close>.
\<close>

definition parseFloat_toFixed2 :: "number \<Rightarrow> number" where
  "parseFloat_toFixed2 a =
     (case a of
        Fin x \<Rightarrow>
          if 10 ^ 21 \<le> \<bar>x\<bar> then Fin x
          else fl_signed (x < 0) (of_int \<lfloor>\<bar>x\<bar> * 100 + 1 / 2\<rfloor> / 100)
      | NegZero \<Rightarrow> Fin 0
      | _ \<Rightarrow> a)"

datatype PositionSide = Long | Short

record PnLResult =
  absolute :: number
  percentage :: number
  entryValue :: number
  currentValue :: number

definition zero_result :: PnLResult where
  "zero_result = \<lparr>absolute = Fin 0, percentage = Fin 0, entryValue = Fin 0, currentValue = Fin 0\<rparr>"

text \<open>
  \<^verbatim>\<open>calculatePnLWithSide(entryPrice, currentPrice, size, side, leverage = 1)\<close> of
  \<^verbatim>\<open>lib/math.ts\<close>; the parameter \<^verbatim>\<open>size\<close> is \<open>size'\<close> here.
\<close>

definition calculatePnLWithSide ::
  "number \<Rightarrow> number \<Rightarrow> number \<Rightarrow> PositionSide \<Rightarrow> number \<Rightarrow> PnLResult" where
  "calculatePnLWithSide entryPrice currentPrice size' side leverage =
     (if \<not> isFinite entryPrice \<or> \<not> isFinite currentPrice \<or> \<not> isFinite size'
         \<or> \<not> isFinite leverage then zero_result
      else if js_le entryPrice (Fin 0) \<or> js_le currentPrice (Fin 0) \<or> js_le leverage (Fin 0)
        then zero_result
      else if js_strict_eq size' (Fin 0) then zero_result
      else
        let absSize = js_abs size';
            entryValue = js_mul entryPrice absSize;
            currentValue = js_mul currentPrice absSize;
            pnlAbsolute =
              (if side = Long then js_mul (js_mul (js_sub currentPrice entryPrice) absSize) leverage
               else js_mul (js_mul (js_sub entryPrice currentPrice) absSize) leverage);
            pnlPercentage = js_mul (js_div pnlAbsolute entryValue) (Fin 100)
        in \<lparr>absolute = parseFloat_toFixed2 pnlAbsolute,
            percentage = parseFloat_toFixed2 pnlPercentage,
            entryValue = parseFloat_toFixed2 entryValue,
            currentValue = parseFloat_toFixed2 currentValue\<rparr>)"

text \<open>The call without the last argument takes the default \<^verbatim>\<open>leverage = 1\<close>.\<close>

definition calculatePnLWithSide_default ::
  "number \<Rightarrow> number \<Rightarrow> number \<Rightarrow> PositionSide \<Rightarrow> PnLResult" where
  "calculatePnLWithSide_default entryPrice currentPrice size' side =
     calculatePnLWithSide entryPrice currentPrice size' side (Fin 1)"
section \<open>Properties\<close>

subsection \<open>Volume\<close>

lemma usd_volume_is_reference:
  "usd_volume s0 s1 a0 p0 a1 p1 = usd_volume_reference s0 s1 a0 p0 a1 p1"
  by (simp add: usd_volume_def usd_volume_reference_def exactly_one_stable_def)

lemma normalize_amount_usdc:
  "normalize_amount TOKEN_DECIMALS_listed USDC 2000000000 = 2000"
  by (simp add: normalize_amount_def TOKEN_DECIMALS_listed_def
      USDC_def USDT_def WBTC_def WETH_def)

lemma normalize_amount_default_18:
  "token_decimals token_address = None \<Longrightarrow>
   normalize_amount token_decimals token_address amount_raw = real_of_int amount_raw / 10 ^ 18"
  by (simp add: normalize_amount_def)

text \<open>
  The second sample swap of DEMO\_GUIDE.md (2 WETH at 2000.5 against 4000 USDC at 1.0, only
  USDC stable) has volume 4000 by the excerpt's rule; the sample file that the guide's
  stand-in script writes prints 4001.0 for it, the WETH side.
\<close>

lemma demo_guide_sample_volume:
  "usd_volume False True
     (normalize_amount TOKEN_DECIMALS_listed WETH 2000000000000000000) (4001 / 2)
     (normalize_amount TOKEN_DECIMALS_listed USDC (- 4000000000)) 1 = 4000"
  by (simp add: usd_volume_def normalize_amount_def TOKEN_DECIMALS_listed_def
      USDC_def USDT_def WBTC_def WETH_def)

lemma token_addresses_differ:
  "WETH \<noteq> USDC" "WBTC \<noteq> USDC" "WBTC \<noteq> WETH" "USDT \<noteq> USDC" "WETH \<noteq> []" "USDC \<noteq> []"
  "WBTC \<noteq> []" "UNI \<noteq> WETH" "UNI \<noteq> USDC" "UNI \<noteq> USDT" "UNI \<noteq> WBTC" "USDT \<noteq> WETH"
  by (simp_all add: WETH_def USDC_def WBTC_def USDT_def UNI_def)

lemma resolve_price_volume_sources:
  "resolve_price volume_sources WETH = Some 2000"
  "resolve_price volume_sources USDC = Some 1"
  "resolve_price volume_sources USDT = Some 1"
  "resolve_price volume_sources UNI = Some 10"
  by (simp_all add: resolve_price_def volume_sources_def WETH_def USDC_def USDT_def WBTC_def
      UNI_def)

lemma volume_sources_fields:
  "is_stable volume_sources = demo_stable"
  "TOKEN_DECIMALS volume_sources = TOKEN_DECIMALS_listed"
  by (simp_all add: volume_sources_def)

lemma enrich_swap_volume:
  "usdVolume (enrich_swap src s) =
     (case resolve_price src (token0Address s) of None \<Rightarrow> None | Some p0 \<Rightarrow>
      case resolve_price src (token1Address s) of None \<Rightarrow> None | Some p1 \<Rightarrow>
        Some (usd_volume (is_stable src (token0Address s)) (is_stable src (token1Address s))
                (normalize_amount (TOKEN_DECIMALS src) (token0Address s) (amount0Raw s)) p0
                (normalize_amount (TOKEN_DECIMALS src) (token1Address s) (amount1Raw s)) p1))"
  by (simp add: enrich_swap_def Let_def)

lemma volume_examples:
  "usdVolume (enrich_swap volume_sources weth_swap) = Some 2000"
  "usdVolume (enrich_swap volume_sources both_stable_swap) = Some 1000"
  "usdVolume (enrich_swap volume_sources sum_both_swap) = Some 2050"
proof -
  have "usdVolume (enrich_swap volume_sources weth_swap) =
      Some (usd_volume (demo_stable WETH) (demo_stable USDC)
              (normalize_amount TOKEN_DECIMALS_listed WETH 1000000000000000000) 2000
              (normalize_amount TOKEN_DECIMALS_listed USDC (- 2000000000)) 1)"
    by (simp add: enrich_swap_volume weth_swap_def resolve_price_volume_sources
        volume_sources_fields)
  then show "usdVolume (enrich_swap volume_sources weth_swap) = Some 2000"
    by (simp add: usd_volume_def normalize_amount_def TOKEN_DECIMALS_listed_def demo_stable_def
        WETH_def USDC_def USDT_def WBTC_def)
  have "usdVolume (enrich_swap volume_sources both_stable_swap) =
      Some (usd_volume (demo_stable USDC) (demo_stable USDT)
              (normalize_amount TOKEN_DECIMALS_listed USDC 1000000000) 1
              (normalize_amount TOKEN_DECIMALS_listed USDT (- 999000000)) 1)"
    by (simp add: enrich_swap_volume both_stable_swap_def resolve_price_volume_sources
        volume_sources_fields)
  then show "usdVolume (enrich_swap volume_sources both_stable_swap) = Some 1000"
    by (simp add: usd_volume_def normalize_amount_def TOKEN_DECIMALS_listed_def demo_stable_def
        WETH_def USDC_def USDT_def WBTC_def)
  have "usdVolume (enrich_swap volume_sources sum_both_swap) =
      Some (usd_volume (demo_stable WETH) (demo_stable UNI)
              (normalize_amount TOKEN_DECIMALS_listed WETH 1000000000000000000) 2000
              (normalize_amount TOKEN_DECIMALS_listed UNI (- 5000000000000000000)) 10)"
    by (simp add: enrich_swap_volume sum_both_swap_def resolve_price_volume_sources
        volume_sources_fields)
  then show "usdVolume (enrich_swap volume_sources sum_both_swap) = Some 2050"
    by (simp add: usd_volume_def normalize_amount_def TOKEN_DECIMALS_listed_def demo_stable_def
        WETH_def USDC_def USDT_def WBTC_def UNI_def)
qed

text \<open>
  Claim C1. For every swap whose two prices are resolved, the volume that enrichment
  attaches is the stablecoin-aware reference on the amounts divided by ten to the token's
  decimals (18 for a token without an entry): one side when both tokens are stable, the
  stable token's side when exactly one is, the sum of both sides when neither is. A swap of
  1 unit of a 2000-dollar non-stable token for 2000 units of a 1-dollar stable token gives
  2000, a both-stable swap of 1000 against 999 at price 1 gives 1000, and a swap of 1 unit
  at 2000 dollars for 5 units at 10 dollars between two non-stable tokens gives 2050.
\<close>

theorem usd_volume_stablecoin_aware:
  assumes "resolve_price src (token0Address s) = Some price0"
    and "resolve_price src (token1Address s) = Some price1"
  shows "usdVolume (enrich_swap src s) =
           Some (usd_volume_reference
                   (is_stable src (token0Address s)) (is_stable src (token1Address s))
                   (real_of_int (amount0Raw s)
                      / 10 ^ (case TOKEN_DECIMALS src (token0Address s) of
                                Some decimals \<Rightarrow> decimals | None \<Rightarrow> 18))
                   price0
                   (real_of_int (amount1Raw s)
                      / 10 ^ (case TOKEN_DECIMALS src (token1Address s) of
                                Some decimals \<Rightarrow> decimals | None \<Rightarrow> 18))
                   price1)
       \<and> priceUSD0 (enrich_swap src s) = Some price0
       \<and> priceUSD1 (enrich_swap src s) = Some price1
       \<and> usdVolume (enrich_swap volume_sources weth_swap) = Some 2000
       \<and> usdVolume (enrich_swap volume_sources both_stable_swap) = Some 1000
       \<and> usdVolume (enrich_swap volume_sources sum_both_swap) = Some 2050"
proof -
  have volume: "usdVolume (enrich_swap src s) =
      Some (usd_volume_reference
              (is_stable src (token0Address s)) (is_stable src (token1Address s))
              (real_of_int (amount0Raw s)
                 / 10 ^ (case TOKEN_DECIMALS src (token0Address s) of
                           Some decimals \<Rightarrow> decimals | None \<Rightarrow> 18))
              price0
              (real_of_int (amount1Raw s)
                 / 10 ^ (case TOKEN_DECIMALS src (token1Address s) of
                           Some decimals \<Rightarrow> decimals | None \<Rightarrow> 18))
              price1)"
    using assms
    by (simp add: enrich_swap_volume usd_volume_is_reference normalize_amount_def)
  have prices: "priceUSD0 (enrich_swap src s) = Some price0"
    "priceUSD1 (enrich_swap src s) = Some price1"
    using assms by (simp_all add: enrich_swap_def Let_def)
  show ?thesis
    by (rule conjI [OF volume conjI [OF prices(1) conjI [OF prices(2)
          conjI [OF volume_examples(1) conjI [OF volume_examples(2) volume_examples(3)]]]]])
qed

theorem usd_volume_stablecoin_aware_witness:
  "resolve_price volume_sources (token0Address weth_swap) = Some 2000
   \<and> resolve_price volume_sources (token1Address weth_swap) = Some 1
   \<and> amount0Raw weth_swap = 1000000000000000000 \<and> amount1Raw weth_swap = - 2000000000
   \<and> TOKEN_DECIMALS volume_sources (token0Address weth_swap) = Some 18
   \<and> TOKEN_DECIMALS volume_sources (token1Address weth_swap) = Some 6
   \<and> \<not> is_stable volume_sources (token0Address weth_swap)
   \<and> is_stable volume_sources (token1Address weth_swap)
   \<and> usdVolume (enrich_swap volume_sources weth_swap)
       = Some (usd_volume_reference False True (1000000000000000000 / 10 ^ 18) 2000
                 (- 2000000000 / 10 ^ 6) 1)
   \<and> usd_volume_reference False True (1000000000000000000 / 10 ^ 18) 2000
        (- 2000000000 / 10 ^ 6) 1 = 2000"
proof -
  have prices: "resolve_price volume_sources (token0Address weth_swap) = Some 2000"
    "resolve_price volume_sources (token1Address weth_swap) = Some 1"
    by (simp_all add: weth_swap_def resolve_price_volume_sources)
  have fields: "amount0Raw weth_swap = 1000000000000000000" "amount1Raw weth_swap = - 2000000000"
    "TOKEN_DECIMALS volume_sources (token0Address weth_swap) = Some 18"
    "TOKEN_DECIMALS volume_sources (token1Address weth_swap) = Some 6"
    "\<not> is_stable volume_sources (token0Address weth_swap)"
    "is_stable volume_sources (token1Address weth_swap)"
    by (simp_all add: weth_swap_def volume_sources_def TOKEN_DECIMALS_listed_def demo_stable_def
        WETH_def USDC_def USDT_def WBTC_def)
  have ref: "usd_volume_reference False True (1000000000000000000 / 10 ^ 18) 2000
        (- 2000000000 / 10 ^ 6) 1 = 2000"
    by (simp add: usd_volume_reference_def exactly_one_stable_def)
  from usd_volume_stablecoin_aware [OF prices]
  have "usdVolume (enrich_swap volume_sources weth_swap)
       = Some (usd_volume_reference False True (1000000000000000000 / 10 ^ 18) 2000
                 (- 2000000000 / 10 ^ 6) 1)"
    by (simp add: fields)
  with prices fields ref show ?thesis by simp
qed

subsection \<open>Normalizer\<close>








lemma parse_examples:
  "parse_int ''18500120'' = Some 18500120"
  "parse_int ''18500125'' = Some 18500125"
  "parse_int ''18500130'' = Some 18500130"
  "parse_int ''1000000000000000000'' = Some 1000000000000000000"
  "parse_int ''2000000000000000000'' = Some 2000000000000000000"
  "parse_int ''-2000000000'' = Some (- 2000000000)"
  "parse_int ''50000000'' = Some 50000000"
  "parse_int ''-20000000000'' = Some (- 20000000000)"
  "parse_int ''5'' = Some 5"
  by (simp_all add: parse_int_def parse_nat_def digit_value_def)

lemma validate_examples:
  "validate weth_raw = Some weth_swap"
  "validate incomplete_raw = None"
  "validate wbtc_raw = Some wbtc_swap"
  "validate no_hash_raw = None"
  by (simp_all add: validate_def weth_raw_def weth_swap_def incomplete_raw_def wbtc_raw_def
      wbtc_swap_def no_hash_raw_def non_empty_def parse_field_def parse_examples
      token_addresses_differ)

lemma normalize_demo_raws: "normalize_swaps demo_raws = ([weth_swap, wbtc_swap], 1)"
  by (simp add: normalize_swaps_def demo_raws_def validate_examples weth_swap_def wbtc_swap_def)





subsection \<open>Enrichment\<close>

lemma enrich_swap_unresolved: "unresolved src s \<Longrightarrow> usdVolume (enrich_swap src s) = None"
  by (auto simp: unresolved_def enrich_swap_def Let_def split: option.splits)

lemma enrich_swap_resolved: "\<not> unresolved src s \<Longrightarrow> usdVolume (enrich_swap src s) \<noteq> None"
  by (auto simp: unresolved_def enrich_swap_def Let_def split: option.splits)

lemma enrich_swaps_char:
  "enrich_swaps src swaps =
     (map (enrich_swap src) (filter (\<lambda>s. \<not> unresolved src s) swaps),
      length (filter (unresolved src) swaps))"
proof (induction swaps)
  case Nil
  then show ?case by simp
next
  case (Cons s swaps)
  show ?case
  proof (cases "unresolved src s")
    case True
    with Cons enrich_swap_unresolved [OF True] show ?thesis by simp
  next
    case False
    with Cons enrich_swap_resolved [OF False] show ?thesis by auto
  qed
qed

lemma enriched_have_volume:
  "e \<in> set (fst (enrich_swaps src swaps)) \<Longrightarrow> usdVolume e \<noteq> None"
  by (auto simp: enrich_swaps_char dest: enrich_swap_resolved)

lemma resolve_price_examples:
  "resolve_price demo_sources WETH = Some 2000"
  "resolve_price demo_sources USDC = Some 1"
  "resolve_price demo_sources WBTC = None"
  by (simp_all add: resolve_price_def demo_sources_def WETH_def USDC_def WBTC_def)

lemma unresolved_examples:
  "unresolved demo_sources wbtc_swap" "\<not> unresolved demo_sources weth_swap"
  by (simp_all add: unresolved_def wbtc_swap_def weth_swap_def resolve_price_examples)

subsection \<open>Runs of the orchestrator\<close>

lemma fold_max_ge: "(a::nat) \<le> fold max xs a"
  by (induction xs arbitrary: a) (auto intro: order_trans [OF max.cobounded2])

lemma fold_max_member: "x \<in> set xs \<Longrightarrow> (x::nat) \<le> fold max xs a"
proof (induction xs arbitrary: a)
  case Nil
  then show ?case by simp
next
  case (Cons y ys)
  show ?case
  proof (cases "x = y")
    case True
    have "y \<le> max y a" by simp
    also have "\<dots> \<le> fold max ys (max y a)" by (rule fold_max_ge)
    finally show ?thesis using True by simp
  next
    case False
    with Cons show ?thesis by simp
  qed
qed

lemma max_block_ge: "s \<in> set swaps \<Longrightarrow> blockNumber s \<le> max_block swaps"
  unfolding max_block_def by (rule fold_max_member) simp

lemma filter_after_max_block:
  assumes "filter_swaps_by_block records b \<noteq> []"
  shows "filter_swaps_by_block records (max_block (filter_swaps_by_block records b)) = []"
proof -
  let ?batch = "filter_swaps_by_block records b"
  from assms obtain s0 where s0: "s0 \<in> set ?batch" by (cases ?batch) auto
  then have "b < blockNumber s0" by (simp add: filter_swaps_by_block_def)
  also have "blockNumber s0 \<le> max_block ?batch" by (rule max_block_ge [OF s0])
  finally have b: "b < max_block ?batch" .
  have "\<not> max_block ?batch < blockNumber s" if "s \<in> set records" for s
  proof (cases "b < blockNumber s")
    case True
    with that have "s \<in> set ?batch" by (simp add: filter_swaps_by_block_def)
    from max_block_ge [OF this] show ?thesis by simp
  next
    case False
    with b show ?thesis by simp
  qed
  then show ?thesis by (simp add: filter_swaps_by_block_def filter_empty_conv)
qed

lemma run_config_bad:
  "\<not> config_ok env \<Longrightarrow> run env store = (Aborted Loading, zero_stats, store)"
  by (simp add: run_def)

lemma run_fetch_failed:
  "config_ok env \<Longrightarrow> fetch_result env = Inl e \<Longrightarrow>
   run env store = (Aborted Fetching, zero_stats, store)"
  by (simp add: run_def)

lemma run_fetch_empty:
  "config_ok env \<Longrightarrow> fetch_result env = Inr [] \<Longrightarrow> run env store = (Done, zero_stats, store)"
  by (simp add: run_def)

lemma run_no_new_records:
  "config_ok env \<Longrightarrow> fetch_result env = Inr raws \<Longrightarrow> raws \<noteq> [] \<Longrightarrow> batch_of raws store = [] \<Longrightarrow>
   run env store =
     (Done, zero_stats\<lparr>fetched := length raws, rejected := snd (normalize_swaps raws)\<rparr>, store)"
  by (simp add: run_def batch_of_def Let_def split_def)

lemma run_records_write_failed:
  "config_ok env \<Longrightarrow> fetch_result env = Inr raws \<Longrightarrow> batch_of raws store \<noteq> [] \<Longrightarrow>
   \<not> write_records_ok env \<Longrightarrow>
   run env store = (Aborted Writing, stats_of env raws (batch_of raws store), store)"
  by (auto simp: run_def batch_of_def stats_of_def zero_stats_def Let_def
      split_def normalize_swaps_def filter_swaps_by_block_def)

lemma run_summary_write_failed:
  "config_ok env \<Longrightarrow> fetch_result env = Inr raws \<Longrightarrow> batch_of raws store \<noteq> [] \<Longrightarrow>
   write_records_ok env \<Longrightarrow> \<not> write_summary_ok env \<Longrightarrow>
   run env store =
     (Aborted Writing, stats_of env raws (batch_of raws store),
      store\<lparr>swaps_out := Some (fst (enrich_swaps (sources env) (batch_of raws store)))\<rparr>)"
  by (auto simp: run_def batch_of_def stats_of_def zero_stats_def Let_def
      split_def normalize_swaps_def filter_swaps_by_block_def)

lemma run_success:
  "config_ok env \<Longrightarrow> fetch_result env = Inr raws \<Longrightarrow> batch_of raws store \<noteq> [] \<Longrightarrow>
   write_records_ok env \<Longrightarrow> write_summary_ok env \<Longrightarrow>
   run env store =
     (Done, stats_of env raws (batch_of raws store),
      writeCheckpoint
        (store\<lparr>swaps_out := Some (fst (enrich_swaps (sources env) (batch_of raws store))),
               summary_out :=
                 Some (summarize (fst (enrich_swaps (sources env) (batch_of raws store))))\<rparr>)
        (max_block (batch_of raws store)) (run_time env))"
  by (auto simp: run_def batch_of_def stats_of_def zero_stats_def Let_def
      split_def normalize_swaps_def filter_swaps_by_block_def)

lemma demo_batch: "batch_of demo_raws empty_store = [weth_swap, wbtc_swap]"
  by (simp add: batch_of_def normalize_demo_raws filter_swaps_by_block_def readCheckpoint_def
      empty_store_def weth_swap_def wbtc_swap_def)

lemma demo_max_block: "max_block [weth_swap, wbtc_swap] = 18500130"
  by (simp add: max_block_def weth_swap_def wbtc_swap_def)

lemma demo_run: "run demo_env empty_store = (Done, stats_of demo_env demo_raws [weth_swap, wbtc_swap], demo_store)"
proof -
  have "batch_of demo_raws empty_store \<noteq> []" by (simp add: demo_batch)
  then have "run demo_env empty_store =
     (Done, stats_of demo_env demo_raws (batch_of demo_raws empty_store),
      writeCheckpoint
        (empty_store\<lparr>swaps_out := Some (fst (enrich_swaps (sources demo_env)
             (batch_of demo_raws empty_store))),
           summary_out := Some (summarize (fst (enrich_swaps (sources demo_env)
             (batch_of demo_raws empty_store))))\<rparr>)
        (max_block (batch_of demo_raws empty_store)) (run_time demo_env))"
    by (intro run_success) (simp_all add: demo_env_def)
  then have "run demo_env empty_store =
     (Done, stats_of demo_env demo_raws [weth_swap, wbtc_swap],
      writeCheckpoint
        (empty_store\<lparr>swaps_out := Some (fst (enrich_swaps (sources demo_env)
             [weth_swap, wbtc_swap])),
           summary_out := Some (summarize (fst (enrich_swaps (sources demo_env)
             [weth_swap, wbtc_swap])))\<rparr>)
        18500130 (run_time demo_env))"
    by (simp only: demo_batch demo_max_block)
  moreover have "sources demo_env = demo_sources" "run_time demo_env = 1700000000"
    by (simp_all add: demo_env_def)
  ultimately show ?thesis
    by (simp add: writeCheckpoint_def empty_store_def demo_store_def demo_enriched_def)
qed

text \<open>
  Claim C2. A swap with a price that is unresolved after the static table and the oracle
  has a null volume (not zero); it is left out of the enriched output and of the summary,
  which are those of the batch without it, and the skipped counter is one more than
  without it. A run whose configuration, fetch and writes succeed ends in Done whatever
  the prices: it writes the enrichments of the resolved swaps of its batch, summarizes
  these, and reports as skipped the number of unresolved swaps.
\<close>

theorem unresolved_price_skips_swap:
  assumes "unresolved src s"
  shows "usdVolume (enrich_swap src s) = None
     \<and> usdVolume (enrich_swap src s) \<noteq> Some 0
     \<and> fst (enrich_swaps src (xs @ s # ys)) = fst (enrich_swaps src (xs @ ys))
     \<and> summarize (fst (enrich_swaps src (xs @ s # ys))) = summarize (fst (enrich_swaps src (xs @ ys)))
     \<and> snd (enrich_swaps src (xs @ s # ys)) = snd (enrich_swaps src (xs @ ys)) + 1
     \<and> (sources env = src \<and> s \<in> set (batch_of raws store) \<and> config_ok env
          \<and> fetch_result env = Inr raws \<and> write_records_ok env \<and> write_summary_ok env \<longrightarrow>
        fst (run env store) = Done
        \<and> swaps_out (snd (snd (run env store))) =
            Some (map (enrich_swap src) (filter (\<lambda>s. \<not> unresolved src s) (batch_of raws store)))
        \<and> summary_out (snd (snd (run env store))) =
            Some (summarize (map (enrich_swap src)
                   (filter (\<lambda>s. \<not> unresolved src s) (batch_of raws store))))
        \<and> skipped (fst (snd (run env store))) =
            length (filter (unresolved src) (batch_of raws store)))"
proof -
  have vol: "usdVolume (enrich_swap src s) = None"
    by (rule enrich_swap_unresolved [OF assms])
  have kept: "fst (enrich_swaps src (xs @ s # ys)) = fst (enrich_swaps src (xs @ ys))"
    and count: "snd (enrich_swaps src (xs @ s # ys)) = snd (enrich_swaps src (xs @ ys)) + 1"
    using assms by (simp_all add: enrich_swaps_char)
  have run: "fst (run env store) = Done
        \<and> swaps_out (snd (snd (run env store))) =
            Some (map (enrich_swap src) (filter (\<lambda>s. \<not> unresolved src s) (batch_of raws store)))
        \<and> summary_out (snd (snd (run env store))) =
            Some (summarize (map (enrich_swap src)
                   (filter (\<lambda>s. \<not> unresolved src s) (batch_of raws store))))
        \<and> skipped (fst (snd (run env store))) =
            length (filter (unresolved src) (batch_of raws store))"
    if "sources env = src" "s \<in> set (batch_of raws store)" "config_ok env"
      "fetch_result env = Inr raws" "write_records_ok env" "write_summary_ok env"
  proof -
    from that(2) have "batch_of raws store \<noteq> []" by auto
    from run_success [OF that(3,4) this that(5,6)] that(1) show ?thesis
      by (simp add: enrich_swaps_char writeCheckpoint_def stats_of_def)
  qed
  from vol kept count run show ?thesis by simp
qed

theorem unresolved_price_skips_swap_witness:
  "unresolved demo_sources wbtc_swap
   \<and> usdVolume (enrich_swap demo_sources wbtc_swap) = None
   \<and> fst (enrich_swaps demo_sources [weth_swap, wbtc_swap]) = fst (enrich_swaps demo_sources [weth_swap])
   \<and> snd (enrich_swaps demo_sources [weth_swap, wbtc_swap]) = snd (enrich_swaps demo_sources [weth_swap]) + 1
   \<and> fst (run demo_env empty_store) = Done
   \<and> swaps_out (snd (snd (run demo_env empty_store))) = Some [enrich_swap demo_sources weth_swap]
   \<and> skipped (fst (snd (run demo_env empty_store))) = 1"
proof -
  have h: "unresolved demo_sources wbtc_swap" by (rule unresolved_examples)
  have pre: "sources demo_env = demo_sources \<and> wbtc_swap \<in> set (batch_of demo_raws empty_store)
      \<and> config_ok demo_env \<and> fetch_result demo_env = Inr demo_raws
      \<and> write_records_ok demo_env \<and> write_summary_ok demo_env"
    by (simp add: demo_env_def demo_batch)
  from unresolved_price_skips_swap [OF h, of "[weth_swap]" "[]" demo_env demo_raws empty_store]
    h pre
  show ?thesis by (simp add: demo_batch unresolved_examples del: enrich_swaps.simps)
qed

text \<open>
  Claim C3. The Filtering stage keeps exactly the records above the checkpoint. When a run
  has ended in Done, a second run that loads its configuration and fetches the same
  result ends in Done with the store as the first run left it, checkpoint and outputs
  included, and with no record enriched or skipped. A run whose filtered batch is empty
  leaves the store untouched.
\<close>

theorem run_idempotent:
  assumes first: "run env store = (Done, stats, store')"
    and same: "fetch_result env' = fetch_result env"
    and cfg: "config_ok env'"
  shows "set (filter_swaps_by_block records b) = {s \<in> set records. b < blockNumber s}
     \<and> fst (run env' store') = Done
     \<and> snd (snd (run env' store')) = store'
     \<and> enriched_count (fst (snd (run env' store'))) = 0
     \<and> skipped (fst (snd (run env' store'))) = 0
     \<and> (config_ok env \<and> fetch_result env = Inr raws \<and> batch_of raws store = [] \<longrightarrow>
          store' = store)"
proof -
  have filt: "set (filter_swaps_by_block records b) = {s \<in> set records. b < blockNumber s}"
    by (auto simp: filter_swaps_by_block_def)
  have cfg0: "config_ok env"
    using first by (cases "config_ok env") (simp_all add: run_config_bad)
  obtain raws0 where raws0: "fetch_result env = Inr raws0"
    using first cfg0 by (cases "fetch_result env") (simp_all add: run_fetch_failed)
  have short: "store' = store" if "batch_of raws0 store = []"
  proof (cases "raws0 = []")
    case True
    with first cfg0 raws0 show ?thesis by (simp add: run_fetch_empty)
  next
    case False
    with first cfg0 raws0 that show ?thesis by (simp add: run_no_new_records)
  qed
  have again: "batch_of raws0 store' = []"
  proof (cases "batch_of raws0 store = []")
    case True
    with short show ?thesis by simp
  next
    case False
    have ok: "write_records_ok env \<and> write_summary_ok env"
    proof (rule ccontr)
      assume "\<not> (write_records_ok env \<and> write_summary_ok env)"
      then consider "\<not> write_records_ok env" | "write_records_ok env" "\<not> write_summary_ok env"
        by blast
      then show False
      proof cases
        case 1
        from run_records_write_failed [OF cfg0 raws0 False 1] first show False by simp
      next
        case 2
        from run_summary_write_failed [OF cfg0 raws0 False 2] first show False by simp
      qed
    qed
    with run_success [OF cfg0 raws0 False] first
    have "lastProcessedBlock (readCheckpoint store') = max_block (batch_of raws0 store)"
      by (auto simp: writeCheckpoint_def readCheckpoint_def)
    then show ?thesis
      using filter_after_max_block [of "fst (normalize_swaps raws0)"
          "lastProcessedBlock (readCheckpoint store)"] False
      by (simp add: batch_of_def)
  qed
  have second: "fst (run env' store') = Done \<and> snd (snd (run env' store')) = store'
     \<and> enriched_count (fst (snd (run env' store'))) = 0
     \<and> skipped (fst (snd (run env' store'))) = 0"
  proof (cases "raws0 = []")
    case True
    with cfg same raws0 show ?thesis by (simp add: run_fetch_empty zero_stats_def)
  next
    case False
    from cfg same raws0 have "fetch_result env' = Inr raws0" by simp
    from run_no_new_records [OF cfg this False again] show ?thesis
      by (simp add: zero_stats_def)
  qed
  have third: "store' = store"
    if "config_ok env" "fetch_result env = Inr raws" "batch_of raws store = []"
    using that raws0 short by simp
  from filt second third show ?thesis by simp
qed

theorem run_idempotent_witness:
  "run demo_env empty_store = (Done, stats_of demo_env demo_raws [weth_swap, wbtc_swap], demo_store)
   \<and> fetch_result failing_sink_env = fetch_result demo_env
   \<and> config_ok failing_sink_env
   \<and> fst (run failing_sink_env demo_store) = Done
   \<and> snd (snd (run failing_sink_env demo_store)) = demo_store
   \<and> checkpoint demo_store = Some \<lparr>lastProcessedBlock = 18500130, lastUpdatedAt = 1700000000\<rparr>
   \<and> enriched_count (fst (snd (run failing_sink_env demo_store))) = 0
   \<and> skipped (fst (snd (run failing_sink_env demo_store))) = 0"
proof -
  have same: "fetch_result failing_sink_env = fetch_result demo_env"
    and cfg: "config_ok failing_sink_env"
    by (simp_all add: failing_sink_env_def demo_env_def)
  from run_idempotent [OF demo_run same cfg] demo_run same cfg
  show ?thesis by (simp add: demo_store_def)
qed

text \<open>
  Claim C4. When a run reaches the Writing stage and one of the two writes fails, it ends
  in Aborted at Writing with the checkpoint as before; indeed no run that ends outside
  Done changes the checkpoint. A checkpoint that differs after a run means that both
  writes succeeded and both outputs are in place, and it then holds the largest block
  number of the batch the run processed: there is no save between the stages.
\<close>

theorem write_failure_keeps_checkpoint:
  "(config_ok env \<and> fetch_result env = Inr raws \<and> batch_of raws store \<noteq> []
      \<and> \<not> (write_records_ok env \<and> write_summary_ok env) \<longrightarrow>
      fst (run env store) = Aborted Writing
      \<and> checkpoint (snd (snd (run env store))) = checkpoint store)
   \<and> (fst (run env store) \<noteq> Done \<longrightarrow> checkpoint (snd (snd (run env store))) = checkpoint store)
   \<and> (checkpoint (snd (snd (run env store))) \<noteq> checkpoint store \<longrightarrow>
        write_records_ok env \<and> write_summary_ok env
        \<and> swaps_out (snd (snd (run env store))) \<noteq> None
        \<and> summary_out (snd (snd (run env store))) \<noteq> None
        \<and> (\<exists>fetched_raws. fetch_result env = Inr fetched_raws
              \<and> checkpoint (snd (snd (run env store))) =
                  Some \<lparr>lastProcessedBlock = max_block (batch_of fetched_raws store),
                        lastUpdatedAt = run_time env\<rparr>))"
proof -
  have cases_run:
    "(fst (run env store) \<noteq> Done \<or> \<not> (write_records_ok env \<and> write_summary_ok env) \<longrightarrow>
        checkpoint (snd (snd (run env store))) = checkpoint store)
     \<and> (checkpoint (snd (snd (run env store))) \<noteq> checkpoint store \<longrightarrow>
        swaps_out (snd (snd (run env store))) \<noteq> None
        \<and> summary_out (snd (snd (run env store))) \<noteq> None
        \<and> (\<exists>fetched_raws. fetch_result env = Inr fetched_raws
              \<and> checkpoint (snd (snd (run env store))) =
                  Some \<lparr>lastProcessedBlock = max_block (batch_of fetched_raws store),
                        lastUpdatedAt = run_time env\<rparr>))"
  proof (cases "config_ok env")
    case False
    then show ?thesis by (simp add: run_config_bad)
  next
    case cfg: True
    show ?thesis
    proof (cases "fetch_result env")
      case (Inl e)
      with cfg show ?thesis by (simp add: run_fetch_failed)
    next
      case (Inr raws0)
      show ?thesis
      proof (cases "batch_of raws0 store = []")
        case True
        show ?thesis
        proof (cases "raws0 = []")
          case True
          with cfg Inr show ?thesis by (simp add: run_fetch_empty)
        next
          case False
          with cfg Inr True show ?thesis by (simp add: run_no_new_records)
        qed
      next
        case batch: False
        show ?thesis
        proof (cases "write_records_ok env")
          case False
          from run_records_write_failed [OF cfg Inr batch False] show ?thesis by simp
        next
          case rec: True
          show ?thesis
          proof (cases "write_summary_ok env")
            case False
            from run_summary_write_failed [OF cfg Inr batch rec False] show ?thesis by simp
          next
            case True
            from run_success [OF cfg Inr batch rec True] Inr rec True show ?thesis
              by (simp add: writeCheckpoint_def)
          qed
        qed
      qed
    qed
  qed
  have abort: "fst (run env store) = Aborted Writing"
    if "config_ok env" "fetch_result env = Inr raws" "batch_of raws store \<noteq> []"
      "\<not> (write_records_ok env \<and> write_summary_ok env)"
  proof (cases "write_records_ok env")
    case False
    from run_records_write_failed [OF that(1,2,3) False] show ?thesis by simp
  next
    case True
    with that(4) have "\<not> write_summary_ok env" by simp
    from run_summary_write_failed [OF that(1,2,3) True this] show ?thesis by simp
  qed
  from cases_run abort show ?thesis by blast
qed

theorem write_failure_keeps_checkpoint_witness:
  "config_ok failing_sink_env \<and> fetch_result failing_sink_env = Inr demo_raws
   \<and> batch_of demo_raws empty_store = [weth_swap, wbtc_swap]
   \<and> write_records_ok failing_sink_env \<and> \<not> write_summary_ok failing_sink_env
   \<and> fst (run failing_sink_env empty_store) = Aborted Writing
   \<and> checkpoint (snd (snd (run failing_sink_env empty_store))) = None
   \<and> checkpoint (snd (snd (run demo_env empty_store))) =
       Some \<lparr>lastProcessedBlock = 18500130, lastUpdatedAt = 1700000000\<rparr>
   \<and> write_records_ok demo_env \<and> write_summary_ok demo_env"
proof -
  have pre: "config_ok failing_sink_env \<and> fetch_result failing_sink_env = Inr demo_raws
      \<and> batch_of demo_raws empty_store \<noteq> []
      \<and> \<not> (write_records_ok failing_sink_env \<and> write_summary_ok failing_sink_env)"
    by (simp add: failing_sink_env_def demo_batch)
  have sink: "write_records_ok failing_sink_env \<and> \<not> write_summary_ok failing_sink_env"
    by (simp add: failing_sink_env_def)
  have before: "checkpoint empty_store = None"
    by (simp add: empty_store_def)
  have after: "checkpoint (snd (snd (run demo_env empty_store))) =
      Some \<lparr>lastProcessedBlock = 18500130, lastUpdatedAt = 1700000000\<rparr>"
    unfolding demo_run by (simp add: demo_store_def)
  then have changed: "checkpoint (snd (snd (run demo_env empty_store))) \<noteq> checkpoint empty_store"
    unfolding before by simp
  from write_failure_keeps_checkpoint [of failing_sink_env demo_raws empty_store] pre
  have aborted: "fst (run failing_sink_env empty_store) = Aborted Writing
      \<and> checkpoint (snd (snd (run failing_sink_env empty_store))) = checkpoint empty_store"
    by blast
  from write_failure_keeps_checkpoint [of demo_env demo_raws empty_store] changed
  have written: "write_records_ok demo_env \<and> write_summary_ok demo_env"
    by blast
  from pre sink before after aborted written demo_batch show ?thesis by simp
qed

subsection \<open>RateLimiter\<close>

lemma dropWhile_none: "\<forall>t \<in> set rs. \<not> P t \<Longrightarrow> dropWhile P rs = rs"
  by (cases rs) auto

lemma acquire_below_limit:
  assumes "\<forall>t \<in> set (requests self). now - window_seconds self \<le> t"
    and "int (length (requests self)) < max_requests self"
  shows "acquire self now = Inr (self\<lparr>requests := requests self @ [now]\<rparr>, now)"
proof -
  have "dropWhile (\<lambda>t. t < now - window_seconds self) (requests self) = requests self"
    using assms(1) by (intro dropWhile_none) (auto simp: not_less)
  then show ?thesis using assms(2) by (simp add: acquire_def)
qed

lemma acquire_at_limit:
  assumes "requests self = oldest # rest"
    and "\<forall>t \<in> set (requests self). now - window_seconds self \<le> t"
    and "max_requests self \<le> int (length (requests self))"
  shows "acquire self now =
     Inr (self\<lparr>requests := requests self @ [now]\<rparr>, oldest + window_seconds self)"
proof -
  have "dropWhile (\<lambda>t. t < now - window_seconds self) (requests self) = requests self"
    using assms(2) by (intro dropWhile_none) (auto simp: not_less)
  moreover have "now - window_seconds self \<le> oldest" using assms(1,2) by simp
  ultimately show ?thesis using assms(1,3) by (simp add: acquire_def)
qed

text \<open>
  The wait never is negative and the deque never is read empty when \<open>max_requests\<close> is
  positive: \<open>acquire\<close> then returns.
\<close>

lemma acquire_returns:
  assumes "0 < max_requests self"
  shows "\<exists>self' returned. acquire self now = Inr (self', returned) \<and> now \<le> returned"
proof -
  let ?remaining = "dropWhile (\<lambda>t. t < now - window_seconds self) (requests self)"
  show ?thesis
  proof (cases "max_requests self \<le> int (length ?remaining)")
    case False
    then show ?thesis by (simp add: acquire_def)
  next
    case True
    with assms obtain oldest rest where rem: "?remaining = oldest # rest"
      by (cases ?remaining) auto
    then have "\<not> oldest < now - window_seconds self"
      using hd_dropWhile [of "\<lambda>t. t < now - window_seconds self" "requests self"] by simp
    with True rem show ?thesis by (simp add: acquire_def)
  qed
qed

lemma acquire_all_within_limit:
  assumes "\<forall>a \<in> set (requests self @ ts). \<forall>b \<in> set (requests self @ ts).
             b - window_seconds self \<le> a"
    and "sorted ts" and "\<forall>t \<in> set ts. clock \<le> t"
    and "int (length (requests self) + length ts) \<le> max_requests self"
  shows "acquire_all self clock ts = Inr (self\<lparr>requests := requests self @ ts\<rparr>, ts)"
  using assms
proof (induction ts arbitrary: self clock)
  case Nil
  then show ?case by simp
next
  case (Cons t ts)
  let ?self' = "self\<lparr>requests := requests self @ [t]\<rparr>"
  have now: "max clock t = t" using Cons.prems(3) by simp
  have step: "acquire self t = Inr (?self', t)"
    using Cons.prems(1,4) by (intro acquire_below_limit) auto
  have "acquire_all ?self' t ts = Inr (?self'\<lparr>requests := requests ?self' @ ts\<rparr>, ts)"
    using Cons.prems by (intro Cons.IH) auto
  then show ?case using now step by simp
qed

lemma acquire_all_append:
  "acquire_all self clock (xs @ ys) =
     (case acquire_all self clock xs of
        Inl e \<Rightarrow> Inl e
      | Inr (self', admitted) \<Rightarrow>
          (case acquire_all self' (last (clock # admitted)) ys of
             Inl e \<Rightarrow> Inl e
           | Inr (self'', admitted') \<Rightarrow> Inr (self'', admitted @ admitted')))"
proof (induction xs arbitrary: self clock)
  case Nil
  then show ?case by (simp split: sum.splits prod.splits)
next
  case (Cons x xs)
  show ?case
  proof (cases "acquire self (max clock x)")
    case (Inl e)
    then show ?thesis by simp
  next
    case (Inr p)
    obtain self1 returned where p: "p = (self1, returned)" by (cases p)
    show ?thesis
    proof (cases "acquire_all self1 returned xs")
      case (Inl e)
      with Inr p Cons.IH [of self1 returned] show ?thesis by simp
    next
      case inner: (Inr q)
      obtain self2 admitted where q: "q = (self2, admitted)" by (cases q)
      from Inr p inner q Cons.IH [of self1 returned] show ?thesis
        by (simp split: sum.splits prod.splits)
    qed
  qed
qed

text \<open>
  The part of claim C5 that the excerpt meets: from an empty limiter with
  \<open>max_requests = 10\<close> and a window of 60 seconds, eleven calls issued in order, the
  eleventh at most 60 seconds after the first, see the first ten return at once and the
  eleventh return 60 seconds after the first call, having waited
  \<open>(oldest + window) - now\<close>. The deque then holds the times at which the calls were
  issued, the eleventh included, not the time at which it returned.
\<close>

lemma eleventh_call_waits:
  assumes len: "length ts = 10" and ord: "sorted (ts @ [t11])"
    and clock: "\<forall>t \<in> set ts. clock \<le> t" and near: "t11 - 60 \<le> hd ts"
  shows "acquire_all (RateLimiter_init 10 60) clock (ts @ [t11]) =
     Inr (\<lparr>max_requests = 10, window_seconds = 60, requests = ts @ [t11]\<rparr>, ts @ [hd ts + 60])"
proof -
  from len obtain t1 rest where ts: "ts = t1 # rest" by (cases ts) auto
  from ord have sorted_ts: "sorted ts" and below: "\<forall>t \<in> set ts. t \<le> t11"
    by (simp_all add: sorted_append)
  from sorted_ts ts have first: "\<forall>t \<in> set ts. t1 \<le> t" by auto
  have close: "\<forall>a \<in> set ts. \<forall>b \<in> set ts. b - 60 \<le> a"
  proof (intro ballI)
    fix a b assume "a \<in> set ts" "b \<in> set ts"
    with below first near ts have "b \<le> t11" "t1 \<le> a" "t11 - 60 \<le> t1" by auto
    then show "b - 60 \<le> a" by linarith
  qed
  let ?full = "\<lparr>max_requests = 10, window_seconds = 60, requests = ts\<rparr>"
  have ten: "acquire_all (RateLimiter_init 10 60) clock ts = Inr (?full, ts)"
    using acquire_all_within_limit [of "RateLimiter_init 10 60" ts clock] close sorted_ts clock len
    by (simp add: RateLimiter_init_def)
  have last_ts: "last (clock # ts) \<le> t11" using ts below by simp
  have "acquire ?full t11 = Inr (?full\<lparr>requests := requests ?full @ [t11]\<rparr>, t1 + window_seconds ?full)"
  proof (rule acquire_at_limit)
    show "requests ?full = t1 # rest" using ts by simp
    show "\<forall>t \<in> set (requests ?full). t11 - window_seconds ?full \<le> t"
      using first near ts by auto
    show "max_requests ?full \<le> int (length (requests ?full))" using len by simp
  qed
  then have eleventh: "acquire ?full (max (last (clock # ts)) t11) =
      Inr (\<lparr>max_requests = 10, window_seconds = 60, requests = ts @ [t11]\<rparr>, t1 + 60)"
    using last_ts by (simp add: max_absorb2)
  show ?thesis
    unfolding acquire_all_append ten using eleventh ts by simp
qed

text \<open>
  Claim C5, at a failing input. Eleven calls one millisecond apart from time 0: the first
  ten return at once, the eleventh, issued at 0.010, returns at 60. The deque records it
  at 0.010, the time read before the sleep. Ten further calls from 60.011 on then find
  every recorded time older than the window and all return at once, so that eleven
  calls, those returning at 60 and at 60.011 to 60.020, fall within the 60 seconds that end
  at 60.020.
\<close>

theorem rate_limiter_records_time_before_sleep:
  "acquire_all (RateLimiter_init 10 60) 0 burst1 =
     Inr (\<lparr>max_requests = 10, window_seconds = 60, requests = burst1\<rparr>, first_ten @ [60])
   \<and> last burst1 = 1 / 100
   \<and> acquire_all (RateLimiter_init 10 60) 0 (burst1 @ burst2) =
       Inr (\<lparr>max_requests = 10, window_seconds = 60, requests = burst2\<rparr>,
            first_ten @ [60] @ burst2)
   \<and> admitted_in_window 60 (60020/1000) (first_ten @ [60] @ burst2) = 11"
  by (simp add: burst1_def burst2_def first_ten_def RateLimiter_init_def acquire_def
      admitted_in_window_def)

subsection \<open>Retry\<close>

lemma fetch_swaps_raises:
  "fetch_swaps (Raises failure) = Inl (RequestError failure)"
  "400 \<le> status_code \<Longrightarrow> fetch_swaps (Response status_code body) = Inl (HTTPStatusError status_code)"
  "fetch_swaps (Response 200 None) = Inl JSONDecodeError"
  "fetch_swaps (Response 200 (Some json)) = Inr json"
  by (simp_all add: fetch_swaps_def is_success_def)


text \<open>An exception outside the two listed types is raised at once, after one attempt.\<close>

lemma retry_non_retryable:
  assumes "fn 1 = Inl e" "\<not> retry_if_exception_type e"
  shows "retry_call stop_after_attempt wait fn =
     \<lparr>outcome = Reraised e, attempts = 1, sleeps = []\<rparr>"
  using assms unfolding retry_call_def by (subst retrying.simps) simp

lemma retry_malformed_body:
  "retry_call 3 wait always_malformed =
     \<lparr>outcome = Reraised JSONDecodeError, attempts = 1, sleeps = []\<rparr>"
  by (rule retry_non_retryable) (simp_all add: always_malformed_def fetch_swaps_raises)

lemma retry_http_503:
  "retry_call 3 wait always_503 =
     \<lparr>outcome = RetryError (HTTPStatusError 503), attempts = 3, sleeps = [wait 1, wait 2]\<rparr>"
  unfolding retry_call_def
  by (simp add: retrying.simps always_503_def fetch_swaps_raises numeral_2_eq_2)

text \<open>
  Claim C6, at a failing input. An operation that always answers HTTP 404 is attempted
  three times, whatever the wait strategy, with its two sleeps in between, and ends in
  \<^verbatim>\<open>RetryError\<close>: \<^verbatim>\<open>raise_for_status\<close> raises \<^verbatim>\<open>HTTPStatusError\<close> for a 4xx status as for a
  5xx one, and the \<^verbatim>\<open>retry\<close> predicate of the excerpt accepts that type whatever the
  status.
\<close>

theorem retry_policy_retries_http_404:
  "retry_call 3 wait always_404 =
     \<lparr>outcome = RetryError (HTTPStatusError 404), attempts = 3, sleeps = [wait 1, wait 2]\<rparr>"
  unfolding retry_call_def
  by (simp add: retrying.simps always_404_def fetch_swaps_raises numeral_2_eq_2)

text \<open>The dashboard's reconnection delay: the exponential delay, capped, plus up to a quarter.\<close>

lemma calculateReconnectDelay_bounds:
  assumes "0 \<le> random_draw" "random_draw \<le> 1"
  shows "min (1000 * 2 ^ reconnectAttempts) 30000
           \<le> calculateReconnectDelay reconnectAttempts random_draw"
    and "calculateReconnectDelay reconnectAttempts random_draw
           \<le> 1.25 * min (1000 * 2 ^ reconnectAttempts) 30000"
proof -
  let ?d = "min (1000 * 2 ^ reconnectAttempts) (30000::real)"
  have d: "0 \<le> ?d" by simp
  have j0: "0 \<le> random_draw * 0.25 * ?d" using assms(1) d by simp
  have "random_draw * (0.25 * ?d) \<le> 1 * (0.25 * ?d)"
    using assms(2) d by (intro mult_right_mono) simp_all
  then have j1: "random_draw * 0.25 * ?d \<le> 0.25 * ?d" by simp
  show "?d \<le> calculateReconnectDelay reconnectAttempts random_draw"
    using j0 by (simp add: calculateReconnectDelay_def Let_def)
  show "calculateReconnectDelay reconnectAttempts random_draw \<le> 1.25 * ?d"
    using j1 by (simp add: calculateReconnectDelay_def Let_def)
qed

lemma calculateReconnectDelay_examples:
  "calculateReconnectDelay 0 0 = 1000"
  "calculateReconnectDelay 5 (1 / 2) = 33750"
  "calculateReconnectDelay 6 0 = 30000"
  by (simp_all add: calculateReconnectDelay_def)








subsection \<open>Rounding\<close>

text \<open>\<open>floor_log2\<close> is the floor of the binary logarithm.\<close>

lemma floor_log2_lower:
  assumes "0 < m"
  shows "2 powi (floor_log2 m) \<le> m"
proof (cases "1 \<le> m")
  case True
  then have n: "0 < \<lfloor>m\<rfloor>" by linarith
  from bitlen_bounds [OF n] have "2 ^ nat (bitlen \<lfloor>m\<rfloor> - 1) \<le> \<lfloor>m\<rfloor>" by simp
  then have "(2::real) ^ nat (bitlen \<lfloor>m\<rfloor> - 1) \<le> of_int \<lfloor>m\<rfloor>"
    by (metis of_int_le_iff of_int_numeral of_int_power)
  moreover have "0 < bitlen \<lfloor>m\<rfloor>"
    using bitlen_nonneg [of "\<lfloor>m\<rfloor>"] bitlen_eq_zero_iff [of "\<lfloor>m\<rfloor>"] n by linarith
  moreover have "of_int \<lfloor>m\<rfloor> \<le> m" by simp
  ultimately have "(2::real) ^ nat (bitlen \<lfloor>m\<rfloor> - 1) \<le> m" "0 < bitlen \<lfloor>m\<rfloor>"
    by linarith+
  then show ?thesis using True
    by (simp add: floor_log2_def power_int_def)
next
  case False
  with assms have m1: "m < 1" "1 < 1 / m" by simp_all
  define n where "n = \<lceil>1 / m\<rceil> - 1"
  have n: "0 < n" using m1 unfolding n_def by linarith
  from bitlen_bounds [OF n] have "n < 2 ^ nat (bitlen n)" by simp
  then have "n + 1 \<le> 2 ^ nat (bitlen n)" by simp
  then have "of_int (n + 1) \<le> (2::real) ^ nat (bitlen n)"
    by (metis of_int_le_iff of_int_numeral of_int_power)
  moreover have "1 / m \<le> of_int (n + 1)" unfolding n_def by simp
  ultimately have "1 / m \<le> (2::real) ^ nat (bitlen n)" by linarith
  then have "1 / 2 ^ nat (bitlen n) \<le> m" using assms
    by (simp add: field_simps)
  moreover have "0 < bitlen n"
    using bitlen_nonneg [of n] bitlen_eq_zero_iff [of n] n by linarith
  ultimately show ?thesis using False
    by (simp add: floor_log2_def power_int_def n_def [symmetric] field_simps)
qed

lemma floor_log2_upper:
  assumes "0 < m"
  shows "m < 2 powi (floor_log2 m + 1)"
proof (cases "1 \<le> m")
  case True
  then have n: "0 < \<lfloor>m\<rfloor>" by linarith
  from bitlen_bounds [OF n] have "\<lfloor>m\<rfloor> + 1 \<le> 2 ^ nat (bitlen \<lfloor>m\<rfloor>)" by simp
  then have "of_int (\<lfloor>m\<rfloor> + 1) \<le> (2::real) ^ nat (bitlen \<lfloor>m\<rfloor>)"
    by (metis of_int_le_iff of_int_numeral of_int_power)
  moreover have "m < of_int (\<lfloor>m\<rfloor> + 1)" by linarith
  ultimately have "m < (2::real) ^ nat (bitlen \<lfloor>m\<rfloor>)" by linarith
  moreover have "0 \<le> bitlen \<lfloor>m\<rfloor>" by (rule bitlen_nonneg)
  ultimately show ?thesis using True
    by (simp add: floor_log2_def power_int_def)
next
  case False
  with assms have m1: "m < 1" "1 < 1 / m" by simp_all
  define n where "n = \<lceil>1 / m\<rceil> - 1"
  have n: "0 < n" using m1 unfolding n_def by linarith
  have B: "0 < bitlen n"
    using bitlen_nonneg [of n] bitlen_eq_zero_iff [of n] n by linarith
  from bitlen_bounds [OF n] have "2 ^ nat (bitlen n - 1) \<le> n" by simp
  then have "(2::real) ^ nat (bitlen n - 1) \<le> of_int n"
    by (metis of_int_le_iff of_int_numeral of_int_power)
  moreover have "of_int n < 1 / m" unfolding n_def by linarith
  ultimately have "(2::real) ^ nat (bitlen n - 1) < 1 / m" by linarith
  then have "m < 1 / 2 ^ nat (bitlen n - 1)" using assms
    by (simp add: field_simps)
  moreover have "nat (bitlen n - 1) = nat (bitlen n) - 1" by simp
  ultimately show ?thesis using False B
    by (simp add: floor_log2_def power_int_def n_def [symmetric] field_simps nat_diff_distrib)
qed

lemma powr2_int: "(2::real) powr (of_int k) = 2 powi k"
  by (simp add: powr_real_of_int')

lemma floor_log2_eq_log:
  assumes "0 < m"
  shows "floor_log2 m = \<lfloor>log 2 m\<rfloor>"
proof -
  have "2 powr (of_int (floor_log2 m)) \<le> m"
    using floor_log2_lower [OF assms] by (simp only: powr2_int)
  moreover have "m < 2 powr (of_int (floor_log2 m + 1))"
    using floor_log2_upper [OF assms] by (simp only: powr2_int)
  ultimately have "\<lfloor>log 2 m\<rfloor> = floor_log2 m"
    using assms by (subst floor_log_eq_powr_iff) simp_all
  then show ?thesis by simp
qed


lemma round_half_even_of_int: "round_half_even (of_int k) = k"
  by (simp add: round_half_even_def)

lemma round_half_even_ge: "of_int N \<le> y \<Longrightarrow> N \<le> round_half_even y"
proof -
  assume "of_int N \<le> y"
  then have "N \<le> \<lfloor>y\<rfloor>" by linarith
  moreover have "\<lfloor>y\<rfloor> \<le> round_half_even y"
    by (simp add: round_half_even_def Let_def)
  ultimately show ?thesis by linarith
qed

lemma round_half_even_le: "y \<le> of_int N \<Longrightarrow> round_half_even y \<le> N"
proof (cases "y = of_int N")
  case True
  then show ?thesis by (simp add: round_half_even_of_int)
next
  case False
  assume "y \<le> of_int N"
  with False have "y < of_int N" by simp
  then have "\<lfloor>y\<rfloor> < N" by linarith
  moreover have "round_half_even y \<le> \<lfloor>y\<rfloor> + 1"
    by (simp add: round_half_even_def Let_def)
  ultimately show ?thesis by linarith
qed

lemma floor_log2_le:
  assumes "0 < m" "m \<le> 2 powi k"
  shows "floor_log2 m \<le> k"
proof (rule ccontr)
  assume "\<not> floor_log2 m \<le> k"
  then have "k + 1 \<le> floor_log2 m" by simp
  then have "(2::real) powi (k + 1) \<le> 2 powi (floor_log2 m)"
    by (intro power_int_increasing) simp_all
  also have "\<dots> \<le> m" by (rule floor_log2_lower [OF assms(1)])
  finally have "(2::real) powi (k + 1) \<le> 2 powi k" using assms(2) by simp
  moreover have "(2::real) powi k < 2 powi (k + 1)"
    by (intro power_int_strict_increasing) simp_all
  ultimately show False by simp
qed

lemma floor_log2_ge:
  assumes "0 < m" "2 powi j \<le> m"
  shows "j \<le> floor_log2 m"
proof (rule ccontr)
  assume "\<not> j \<le> floor_log2 m"
  then have "floor_log2 m + 1 \<le> j" by simp
  then have "(2::real) powi (floor_log2 m + 1) \<le> 2 powi j"
    by (intro power_int_increasing) simp_all
  with assms(2) have "2 powi (floor_log2 m + 1) \<le> m" by simp
  with floor_log2_upper [OF assms(1)] show False by simp
qed

lemma round_magnitude_le:
  assumes m: "0 < m" "m \<le> 2 powi k" and k: "- 1074 \<le> k"
  shows "round_magnitude m \<le> 2 powi k"
proof -
  define E where "E = max (floor_log2 m) (- 1022) - 52"
  have "floor_log2 m \<le> k" by (rule floor_log2_le [OF m])
  with k have Ek: "E \<le> k" unfolding E_def by simp
  have q: "(0::real) < 2 powi E" by simp
  have "m / 2 powi E \<le> 2 powi k / 2 powi E"
    using m(2) q by (simp add: divide_right_mono)
  also have "\<dots> = 2 powi (k - E)" by (simp add: power_int_diff)
  also have "\<dots> = of_int (2 ^ nat (k - E))" using Ek by (simp add: power_int_def)
  finally have "round_half_even (m / 2 powi E) \<le> 2 ^ nat (k - E)"
    by (rule round_half_even_le)
  then have "real_of_int (round_half_even (m / 2 powi E)) \<le> of_int (2 ^ nat (k - E))"
    by (simp only: of_int_le_iff)
  then have "of_int (round_half_even (m / 2 powi E)) * 2 powi E
      \<le> of_int (2 ^ nat (k - E)) * (2::real) powi E"
    using q by (simp add: mult_right_mono)
  also have "of_int (2 ^ nat (k - E)) * (2::real) powi E = 2 powi (k - E) * 2 powi E"
    using Ek by (simp add: power_int_def)
  also have "\<dots> = 2 powi k" by (simp add: power_int_add [symmetric])
  finally show ?thesis unfolding round_magnitude_def E_def [symmetric] Let_def .
qed

lemma round_magnitude_ge:
  assumes m: "0 < m" "2 powi j \<le> m" and j: "- 1074 \<le> j"
  shows "2 powi j \<le> round_magnitude m"
proof -
  define f where "f = floor_log2 m"
  define E where "E = max f (- 1022) - 52"
  have jf: "j \<le> f" unfolding f_def by (rule floor_log2_ge [OF m])
  with j have Ef: "E \<le> f" unfolding E_def by simp
  have q: "(0::real) < 2 powi E" by simp
  have "(2::real) powi j \<le> 2 powi f" using jf by (intro power_int_increasing) simp_all
  have fm: "2 powi f \<le> m" unfolding f_def by (rule floor_log2_lower [OF m(1)])
  have "real_of_int (2 ^ nat (f - E)) = 2 powi (f - E)" using Ef by (simp add: power_int_def)
  also have "\<dots> = 2 powi f / 2 powi E" by (simp add: power_int_diff)
  also have "\<dots> \<le> m / 2 powi E" using fm q by (simp add: divide_right_mono)
  finally have "2 ^ nat (f - E) \<le> round_half_even (m / 2 powi E)"
    by (rule round_half_even_ge)
  then have "real_of_int (2 ^ nat (f - E)) \<le> of_int (round_half_even (m / 2 powi E))"
    by (simp only: of_int_le_iff)
  then have le: "of_int (2 ^ nat (f - E)) * (2::real) powi E
      \<le> of_int (round_half_even (m / 2 powi E)) * 2 powi E"
    using q by (simp add: mult_right_mono)
  have "(2::real) powi f = 2 powi (f - E) * 2 powi E"
    by (simp add: power_int_add [symmetric])
  also have "\<dots> = of_int (2 ^ nat (f - E)) * (2::real) powi E"
    using Ef by (simp add: power_int_def)
  also note le
  finally have "2 powi f \<le> round_magnitude m"
    unfolding round_magnitude_def E_def [symmetric] f_def [symmetric] Let_def .
  with \<open>(2::real) powi j \<le> 2 powi f\<close> show ?thesis by simp
qed


lemma round_magnitude_nonneg: "0 \<le> m \<Longrightarrow> 0 \<le> round_magnitude m"
proof -
  assume "0 \<le> m"
  then have "of_int 0 \<le> m / 2 powi (max (floor_log2 m) (- 1022) - 52)" by simp
  then have "0 \<le> round_half_even (m / 2 powi (max (floor_log2 m) (- 1022) - 52))"
    by (rule round_half_even_ge)
  then show ?thesis by (simp add: round_magnitude_def Let_def)
qed

lemma overflow_threshold: "(2::real) powi 1023 < 2 ^ 1024 - 2 ^ 970"
  by simp

lemma round_magnitude_representable:
  assumes x: "m = of_int k * 2 powi e"
    and k: "0 < k" "k < 2 ^ 53"
    and e: "- 1074 \<le> e"
  shows "round_magnitude m = m"
proof -
  have mpos: "0 < m" using x k by simp
  define E where "E = max (floor_log2 m) (- 1022) - 52"
  have "2 powi (floor_log2 m) \<le> m" by (rule floor_log2_lower [OF mpos])
  also have "m < 2 ^ 53 * 2 powi e"
    using x k by simp
  also have "\<dots> = 2 powi (53 + e)"
    by (simp add: power_int_add)
  finally have lt: "2 powi (floor_log2 m) < (2::real) powi (53 + e)" .
  have "floor_log2 m < 53 + e"
  proof (rule ccontr)
    assume "\<not> floor_log2 m < 53 + e"
    then have "(2::real) powi (53 + e) \<le> 2 powi (floor_log2 m)"
      by (intro power_int_increasing) simp_all
    with lt show False by simp
  qed
  with e have Ee: "E \<le> e" unfolding E_def by simp
  have "m / 2 powi E = of_int k * 2 powi (e - E)"
    using x by (simp add: power_int_diff)
  also have "\<dots> = of_int (k * 2 ^ nat (e - E))"
    using Ee by (simp add: power_int_def)
  finally have "round_magnitude m = of_int (k * 2 ^ nat (e - E)) * 2 powi E"
    unfolding round_magnitude_def E_def [symmetric] Let_def
    by (simp only: round_half_even_of_int)
  also have "\<dots> = of_int k * (2 powi (e - E) * 2 powi E)"
    using Ee by (simp add: power_int_def)
  also have "2 powi (e - E) * 2 powi E = (2::real) powi e"
    by (simp add: power_int_add [symmetric])
  finally show "round_magnitude m = m" using x by simp
qed

text \<open>
  A number with at most 53 significant bits, an exponent in the range of the doubles and a
  magnitude below the overflow threshold is rounded to itself.
\<close>

lemma fl_representable:
  assumes x: "\<bar>x\<bar> = of_int k * 2 powi e"
    and k: "0 < k" "k < 2 ^ 53"
    and e: "- 1074 \<le> e"
    and fin: "\<bar>x\<bar> < 2 ^ 1024 - 2 ^ 970"
  shows "fl x = Fin x"
proof -
  have "round_magnitude \<bar>x\<bar> = \<bar>x\<bar>" by (rule round_magnitude_representable [OF x k e])
  moreover have "x \<noteq> 0" using x k by auto
  ultimately show ?thesis using fin
    by (simp add: fl_def fl_signed_def Let_def abs_if split: if_splits)
qed

lemma fl_int:
  assumes "n \<noteq> 0" "\<bar>n\<bar> < 2 ^ 53"
  shows "fl (of_int n) = Fin (of_int n)"
proof -
  have "\<bar>real_of_int n\<bar> < 2 ^ 53"
    using assms by (metis of_int_abs of_int_less_iff of_int_numeral of_int_power)
  then have "\<bar>real_of_int n\<bar> < 2 ^ 1024 - 2 ^ 970" by simp
  then show ?thesis
    using assms by (intro fl_representable [where k = "\<bar>n\<bar>" and e = 0]) simp_all
qed

lemma fl_signed_int:
  assumes "0 < n" "n < 2 ^ 53"
  shows "fl_signed negative (of_int n) = Fin (if negative then - of_int n else of_int n)"
proof -
  have "real_of_int n < 2 ^ 53"
    using assms by (metis of_int_less_iff of_int_numeral of_int_power)
  then have fin: "real_of_int n < 2 ^ 1024 - 2 ^ 970" by simp
  have "round_magnitude (of_int n) = of_int n"
    using assms by (intro round_magnitude_representable [where k = n and e = 0]) simp_all
  then show ?thesis using fin assms by (simp add: fl_signed_def Let_def)
qed

lemma fl_signed_zero: "fl_signed negative 0 = signed_zero negative"
  by (simp add: fl_signed_def)

lemma fl_signed_neg: "js_neg (fl_signed negative m) = fl_signed (\<not> negative) m"
  by (simp add: fl_signed_def infinity_of_def signed_zero_def Let_def)

lemma fl_neg:
  assumes "x \<noteq> 0"
  shows "fl (- x) = js_neg (fl x)"
proof -
  have "(- x < 0) = (\<not> x < 0)" using assms by auto
  then show ?thesis by (simp only: fl_def fl_signed_neg abs_minus_cancel)
qed

lemma fl_signed_finite:
  assumes "0 \<le> m" "m \<le> 2 powi k" "- 1074 \<le> k" "k \<le> 1023"
  shows "isFinite (fl_signed negative m)" "magnitude (fl_signed negative m) \<le> 2 powi k"
proof -
  have "(2::real) powi k \<le> 2 powi 1023" using assms(4) by (intro power_int_increasing) simp_all
  with assms(2) overflow_threshold have fin: "m < 2 ^ 1024 - 2 ^ 970" by linarith
  then show "isFinite (fl_signed negative m)"
    by (simp add: fl_signed_def Let_def signed_zero_def)
  show "magnitude (fl_signed negative m) \<le> 2 powi k"
  proof (cases "m = 0")
    case True
    then show ?thesis by (simp add: fl_signed_def signed_zero_def magnitude_def)
  next
    case False
    with assms(1) have "0 < m" by simp
    from round_magnitude_le [OF this assms(2,3)] round_magnitude_nonneg [OF assms(1)]
    show ?thesis using fin False
      by (simp add: fl_signed_def Let_def signed_zero_def magnitude_def)
  qed
qed

lemma fl_signed_lower:
  assumes "2 powi j \<le> m" "- 1074 \<le> j" "m < 2 ^ 1024 - 2 ^ 970"
  shows "2 powi j \<le> magnitude (fl_signed negative m)"
proof -
  have "(0::real) < 2 powi j" by simp
  with assms(1) have mpos: "0 < m" by linarith
  from round_magnitude_ge [OF mpos assms(1,2)] have r: "2 powi j \<le> round_magnitude m" .
  with \<open>(0::real) < 2 powi j\<close> have "0 < round_magnitude m" by linarith
  with r mpos assms(3) show ?thesis
    by (simp add: fl_signed_def Let_def magnitude_def)
qed


subsection \<open>Negation\<close>

lemma js_neg_facts:
  "isFinite (js_neg a) = isFinite a"
  "magnitude (js_neg a) = magnitude a"
  "is_zero (js_neg a) = is_zero a"
  "(js_neg a = NaN) = (a = NaN)"
  "a \<noteq> NaN \<Longrightarrow> is_negative (js_neg a) = (\<not> is_negative a)"
  by (cases a; auto simp: magnitude_def)+

lemma js_neg_infinity_of: "js_neg (infinity_of b) = infinity_of (\<not> b)"
  by (simp add: infinity_of_def)

lemma js_neg_signed_zero: "js_neg (signed_zero b) = signed_zero (\<not> b)"
  by (simp add: signed_zero_def)

lemma js_neg_involution: "js_neg (js_neg a) = a"
  by (cases a) simp_all

lemma js_mul_neg_left: "js_mul (js_neg a) b = js_neg (js_mul a b)"
proof (cases "a = NaN \<or> b = NaN")
  case True
  then show ?thesis by (auto simp: js_mul_def)
next
  case False
  then have "(is_negative (js_neg a) \<noteq> is_negative b) = (\<not> (is_negative a \<noteq> is_negative b))"
    by (auto simp: js_neg_facts)
  with False show ?thesis
    by (simp add: js_mul_def js_neg_facts fl_signed_neg js_neg_infinity_of)
qed

lemma js_div_neg_left: "js_div (js_neg a) b = js_neg (js_div a b)"
proof (cases "a = NaN \<or> b = NaN")
  case True
  then show ?thesis by (auto simp: js_div_def)
next
  case False
  then have "(is_negative (js_neg a) \<noteq> is_negative b) = (\<not> (is_negative a \<noteq> is_negative b))"
    by (auto simp: js_neg_facts)
  with False show ?thesis
    by (simp add: js_div_def js_neg_facts fl_signed_neg js_neg_infinity_of js_neg_signed_zero)
qed

lemma js_sub_swap:
  assumes "x \<noteq> y"
  shows "js_sub (Fin y) (Fin x) = js_neg (js_sub (Fin x) (Fin y))"
  using assms fl_neg [of "x - y"] by (simp add: js_sub_def)

lemma js_sub_same: "js_sub (Fin x) (Fin x) = Fin 0"
  by (simp add: js_sub_def signed_zero_def)

lemma parseFloat_toFixed2_zero: "is_zero a \<Longrightarrow> parseFloat_toFixed2 a = Fin 0"
  by (cases a) (simp_all add: parseFloat_toFixed2_def fl_signed_zero signed_zero_def)

lemma parseFloat_toFixed2_neg:
  assumes "\<not> is_zero a"
  shows "parseFloat_toFixed2 (js_neg a) = js_neg (parseFloat_toFixed2 a)"
proof (cases a)
  case (Fin x)
  with assms have "x \<noteq> 0" by simp
  then have "(- x < 0) = (\<not> x < 0)" by auto
  with Fin \<open>x \<noteq> 0\<close> show ?thesis
    by (simp add: parseFloat_toFixed2_def fl_signed_neg)
qed (use assms in \<open>simp_all add: parseFloat_toFixed2_def\<close>)

lemma parseFloat_toFixed2_isFinite:
  "isFinite (parseFloat_toFixed2 a) = isFinite a"
proof (cases a)
  case (Fin x)
  show ?thesis
  proof (cases "10 ^ 21 \<le> \<bar>x\<bar>")
    case True
    with Fin show ?thesis by (simp add: parseFloat_toFixed2_def)
  next
    case False
    define n where "n = \<lfloor>\<bar>x\<bar> * 100 + 1 / 2\<rfloor>"
    have "real_of_int n \<le> \<bar>x\<bar> * 100 + 1 / 2" "0 \<le> n" unfolding n_def by linarith+
    with False have "real_of_int n / 100 < 2 ^ 1024 - 2 ^ 970"
      by simp
    then have "isFinite (fl_signed (x < 0) (real_of_int n / 100))"
      by (simp add: fl_signed_def Let_def signed_zero_def)
    with Fin False show ?thesis
      unfolding n_def by (simp add: parseFloat_toFixed2_def)
  qed
qed (simp_all add: parseFloat_toFixed2_def)

lemma parseFloat_toFixed2_NaN: "(parseFloat_toFixed2 a = NaN) = (a = NaN)"
  by (cases a)
     (simp_all add: parseFloat_toFixed2_def fl_signed_def Let_def signed_zero_def infinity_of_def)

lemma parseFloat_toFixed2_symmetric:
  assumes "a \<noteq> NaN"
  shows "js_strict_eq (parseFloat_toFixed2 (js_neg a)) (js_neg (parseFloat_toFixed2 a))"
proof (cases "is_zero a")
  case True
  then have "parseFloat_toFixed2 a = Fin 0" "parseFloat_toFixed2 (js_neg a) = Fin 0"
    by (simp_all add: parseFloat_toFixed2_zero js_neg_facts)
  then show ?thesis by (simp add: js_strict_eq_def)
next
  case False
  from assms have "js_neg (parseFloat_toFixed2 a) \<noteq> NaN"
    by (simp add: js_neg_facts parseFloat_toFixed2_NaN)
  with parseFloat_toFixed2_neg [OF False] show ?thesis
    by (simp add: js_strict_eq_def)
qed

subsection \<open>Magnitudes\<close>

lemma is_zero_magnitude: "isFinite a \<Longrightarrow> is_zero a = (magnitude a = 0)"
  by (cases a) (simp_all add: magnitude_def)

lemma js_mul_finite:
  assumes "isFinite a" "isFinite b" "magnitude a \<le> 2 powi p" "magnitude b \<le> 2 powi q"
    and "- 1074 \<le> p + q" "p + q \<le> 1023"
  shows "isFinite (js_mul a b)" "magnitude (js_mul a b) \<le> 2 powi (p + q)"
proof -
  have nn: "a \<noteq> NaN" "b \<noteq> NaN" using assms(1,2) by auto
  have "magnitude a * magnitude b \<le> 2 powi p * 2 powi q"
    using assms(3,4) by (intro mult_mono) (simp_all add: magnitude_def)
  also have "\<dots> = 2 powi (p + q)" by (simp add: power_int_add)
  finally have le: "magnitude a * magnitude b \<le> 2 powi (p + q)" .
  have ge: "0 \<le> magnitude a * magnitude b" by (simp add: magnitude_def)
  from fl_signed_finite [OF ge le assms(5,6)] nn assms(1,2)
  show "isFinite (js_mul a b)" "magnitude (js_mul a b) \<le> 2 powi (p + q)"
    by (simp_all add: js_mul_def)
qed

lemma js_mul_lower:
  assumes "isFinite a" "isFinite b" "2 powi i \<le> magnitude a" "2 powi j \<le> magnitude b"
    and "- 1074 \<le> i + j" "magnitude a * magnitude b < 2 ^ 1024 - 2 ^ 970"
  shows "2 powi (i + j) \<le> magnitude (js_mul a b)"
proof -
  have nn: "a \<noteq> NaN" "b \<noteq> NaN" using assms(1,2) by auto
  have "(2::real) powi (i + j) = 2 powi i * 2 powi j" by (simp add: power_int_add)
  also have "\<dots> \<le> magnitude a * magnitude b"
    using assms(3,4) by (intro mult_mono) (simp_all add: magnitude_def)
  finally have le: "2 powi (i + j) \<le> magnitude a * magnitude b" .
  from fl_signed_lower [OF le assms(5,6)] nn assms(1,2)
  show ?thesis by (simp add: js_mul_def)
qed

lemma js_div_finite:
  assumes "isFinite a" "isFinite b" "magnitude a \<le> 2 powi p" "2 powi j \<le> magnitude b"
    and "- 1074 \<le> p - j" "p - j \<le> 1023"
  shows "isFinite (js_div a b)" "magnitude (js_div a b) \<le> 2 powi (p - j)"
proof -
  have nn: "a \<noteq> NaN" "b \<noteq> NaN" using assms(1,2) by auto
  have pos: "(0::real) < 2 powi j" by simp
  with assms(4) have bpos: "0 < magnitude b" by linarith
  then have nz: "\<not> is_zero b" using assms(2) by (simp add: is_zero_magnitude)
  have "magnitude a / magnitude b \<le> 2 powi p / magnitude b"
    using assms(3) bpos by (simp add: divide_right_mono)
  also have "\<dots> \<le> 2 powi p / 2 powi j"
    using assms(4) pos bpos by (intro divide_left_mono mult_pos_pos) simp_all
  also have "\<dots> = 2 powi (p - j)" by (simp add: power_int_diff)
  finally have le: "magnitude a / magnitude b \<le> 2 powi (p - j)" .
  have ge: "0 \<le> magnitude a / magnitude b" by (simp add: magnitude_def)
  from fl_signed_finite [OF ge le assms(5,6)] nn nz assms(1,2)
  show "isFinite (js_div a b)" "magnitude (js_div a b) \<le> 2 powi (p - j)"
    by (simp_all add: js_div_def)
qed

lemma js_sub_finite:
  assumes "0 \<le> x" "x \<le> 2 powi k" "0 \<le> y" "y \<le> 2 powi k" "- 1074 \<le> k" "k \<le> 1023"
  shows "isFinite (js_sub (Fin x) (Fin y))" "magnitude (js_sub (Fin x) (Fin y)) \<le> 2 powi k"
proof -
  have le: "\<bar>x - y\<bar> \<le> 2 powi k" using assms(1-4) by linarith
  have ge: "0 \<le> \<bar>x - y\<bar>" by simp
  from fl_signed_finite [OF ge le assms(5,6)]
  show "isFinite (js_sub (Fin x) (Fin y))" "magnitude (js_sub (Fin x) (Fin y)) \<le> 2 powi k"
    by (simp_all add: js_sub_def fl_def signed_zero_def magnitude_def)
qed


subsection \<open>P\&L\<close>

text \<open>The function on arguments that pass every guard.\<close>

lemma calculatePnLWithSide_Long:
  assumes "0 < e" "0 < c" "0 < l" "s \<noteq> 0"
  shows "calculatePnLWithSide (Fin e) (Fin c) (Fin s) Long (Fin l) =
     \<lparr>absolute = parseFloat_toFixed2
        (js_mul (js_mul (js_sub (Fin c) (Fin e)) (Fin \<bar>s\<bar>)) (Fin l)),
      percentage = parseFloat_toFixed2
        (js_mul (js_div (js_mul (js_mul (js_sub (Fin c) (Fin e)) (Fin \<bar>s\<bar>)) (Fin l))
                   (js_mul (Fin e) (Fin \<bar>s\<bar>))) (Fin 100)),
      entryValue = parseFloat_toFixed2 (js_mul (Fin e) (Fin \<bar>s\<bar>)),
      currentValue = parseFloat_toFixed2 (js_mul (Fin c) (Fin \<bar>s\<bar>))\<rparr>"
  using assms by (simp add: calculatePnLWithSide_def js_le_def js_strict_eq_def Let_def)

lemma calculatePnLWithSide_Short:
  assumes "0 < e" "0 < c" "0 < l" "s \<noteq> 0"
  shows "calculatePnLWithSide (Fin e) (Fin c) (Fin s) Short (Fin l) =
     \<lparr>absolute = parseFloat_toFixed2
        (js_mul (js_mul (js_sub (Fin e) (Fin c)) (Fin \<bar>s\<bar>)) (Fin l)),
      percentage = parseFloat_toFixed2
        (js_mul (js_div (js_mul (js_mul (js_sub (Fin e) (Fin c)) (Fin \<bar>s\<bar>)) (Fin l))
                   (js_mul (Fin e) (Fin \<bar>s\<bar>))) (Fin 100)),
      entryValue = parseFloat_toFixed2 (js_mul (Fin e) (Fin \<bar>s\<bar>)),
      currentValue = parseFloat_toFixed2 (js_mul (Fin c) (Fin \<bar>s\<bar>))\<rparr>"
  using assms by (simp add: calculatePnLWithSide_def js_le_def js_strict_eq_def Let_def)

text \<open>Cases of \<^verbatim>\<open>math.test.ts\<close> in which every intermediate result is exact.\<close>

lemma unit_test_large_position:
  "calculatePnLWithSide (Fin 1000) (Fin 1050) (Fin 10) Long (Fin 20) =
     \<lparr>absolute = Fin 10000, percentage = Fin 100, entryValue = Fin 10000,
      currentValue = Fin 10500\<rparr>"
  using fl_signed_int [of 50 False] fl_signed_int [of 500 False] fl_signed_int [of 10000 False]
    fl_signed_int [of 10500 False] fl_signed_int [of 1 False] fl_signed_int [of 100 False]
  by (simp add: calculatePnLWithSide_Long js_sub_def js_mul_def js_div_def fl_def magnitude_def
      parseFloat_toFixed2_def)

lemma unit_test_large_position_short:
  "calculatePnLWithSide (Fin 1000) (Fin 1050) (Fin 10) Short (Fin 20) =
     \<lparr>absolute = Fin (- 10000), percentage = Fin (- 100), entryValue = Fin 10000,
      currentValue = Fin 10500\<rparr>"
  using fl_signed_int [of 50 True] fl_signed_int [of 500 True] fl_signed_int [of 10000 True]
    fl_signed_int [of 10000 False]
    fl_signed_int [of 10500 False] fl_signed_int [of 1 True] fl_signed_int [of 100 True]
  by (simp add: calculatePnLWithSide_Short js_sub_def js_mul_def js_div_def fl_def magnitude_def
      parseFloat_toFixed2_def)

lemma unit_test_leverage:
  "calculatePnLWithSide (Fin 100) (Fin 110) (Fin 1) Long (Fin 10) =
     \<lparr>absolute = Fin 100, percentage = Fin 100, entryValue = Fin 100,
      currentValue = Fin 110\<rparr>"
  using fl_signed_int [of 10 False] fl_signed_int [of 100 False] fl_signed_int [of 110 False]
    fl_signed_int [of 1 False] fl_signed_int [of 10000 False] fl_signed_int [of 11000 False]
  by (simp add: calculatePnLWithSide_Long js_sub_def js_mul_def js_div_def fl_def magnitude_def
      parseFloat_toFixed2_def)

text \<open>
  The test ``should return zero P\&L when prices are equal'': both sides return \<open>+0\<close> for
  \<open>absolute\<close> and \<open>percentage\<close>.
\<close>

lemma unit_test_prices_equal:
  "calculatePnLWithSide (Fin 100) (Fin 100) (Fin 1) side (Fin 1) =
     \<lparr>absolute = Fin 0, percentage = Fin 0, entryValue = Fin 100, currentValue = Fin 100\<rparr>"
  using fl_signed_int [of 100 False] fl_signed_int [of 10000 False]
  by (cases side)
     (simp_all add: calculatePnLWithSide_Long calculatePnLWithSide_Short js_sub_def js_mul_def
      js_div_def fl_signed_zero signed_zero_def magnitude_def parseFloat_toFixed2_def)


text \<open>
  A loss below half a cent is formatted as \<^verbatim>\<open>-0.00\<close> and read back as \<open>-0\<close>; the
  matching profit of the short side is \<open>+0\<close>.
\<close>

lemma unit_negative_zero:
  "absolute (calculatePnLWithSide (Fin 1) (Fin (1023 / 1024)) (Fin 1) Long (Fin 1)) = NegZero
   \<and> absolute (calculatePnLWithSide (Fin 1) (Fin (1023 / 1024)) (Fin 1) Short (Fin 1)) = Fin 0"
proof -
  have r: "round_magnitude (1 / 1024) = 1 / 1024"
    using round_magnitude_representable [of "1 / 1024" 1 "- 10"]
    by (simp add: power_int_minus)
  have small: "(1::real) / 1024 < 2 ^ 1024 - 2 ^ 970" by simp
  have f: "fl_signed negative (1 / 1024) = Fin (if negative then - (1 / 1024) else 1 / 1024)"
    for negative
    using r small by (simp add: fl_signed_def Let_def)
  have d: "js_sub (Fin (1023 / 1024)) (Fin 1) = Fin (- (1 / 1024))"
    "js_sub (Fin 1) (Fin (1023 / 1024)) = Fin (1 / 1024)"
    using f [of True] f [of False] by (simp_all add: js_sub_def fl_def)
  show ?thesis
    using f [of True] f [of False]
    by (simp add: calculatePnLWithSide_Long calculatePnLWithSide_Short d js_mul_def magnitude_def
        parseFloat_toFixed2_def fl_signed_zero signed_zero_def)
qed

text \<open>
  With the two prices, the magnitude of the size and the leverage between \<open>2^-100\<close> and
  \<open>2^100\<close>, no intermediate result overflows, the entry value does not round to zero,
  and every field of the result is finite.
\<close>

lemma calculatePnLWithSide_bounded:
  assumes e: "2 powi (- 100) \<le> e" "e \<le> 2 powi 100"
    and c: "2 powi (- 100) \<le> c" "c \<le> 2 powi 100"
    and s: "2 powi (- 100) \<le> \<bar>s\<bar>" "\<bar>s\<bar> \<le> 2 powi 100"
    and l: "2 powi (- 100) \<le> l" "l \<le> 2 powi 100"
  shows "isFinite (absolute (calculatePnLWithSide (Fin e) (Fin c) (Fin s) side (Fin l)))
       \<and> isFinite (percentage (calculatePnLWithSide (Fin e) (Fin c) (Fin s) side (Fin l)))
       \<and> isFinite (entryValue (calculatePnLWithSide (Fin e) (Fin c) (Fin s) side (Fin l)))
       \<and> isFinite (currentValue (calculatePnLWithSide (Fin e) (Fin c) (Fin s) side (Fin l)))"
proof -
  have tiny: "(0::real) < 2 powi (- 100)" by simp
  have pos: "0 < e" "0 < c" "0 < l" "s \<noteq> 0" using e(1) c(1) l(1) s(1) tiny by linarith+
  have me: "magnitude (Fin e) = e" and mc: "magnitude (Fin c) = c" and ml: "magnitude (Fin l) = l"
    and ms: "magnitude (Fin \<bar>s\<bar>) = \<bar>s\<bar>"
    using pos by (simp_all add: magnitude_def)
  let ?ev = "js_mul (Fin e) (Fin \<bar>s\<bar>)"
  let ?cv = "js_mul (Fin c) (Fin \<bar>s\<bar>)"
  have ev: "isFinite ?ev"
    using js_mul_finite(1) [of "Fin e" "Fin \<bar>s\<bar>" 100 100] e s by (simp add: me ms)
  have "e * \<bar>s\<bar> \<le> 2 powi 100 * 2 powi 100"
    using e s pos by (intro mult_mono) simp_all
  then have "e * \<bar>s\<bar> < 2 ^ 1024 - 2 ^ 970" by simp
  then have ev_low: "2 powi (- 200) \<le> magnitude ?ev"
    using js_mul_lower [of "Fin e" "Fin \<bar>s\<bar>" "- 100" "- 100"] e s by (simp add: me ms)
  have cv: "isFinite ?cv"
    using js_mul_finite(1) [of "Fin c" "Fin \<bar>s\<bar>" 100 100] c s by (simp add: mc ms)
  have pnl: "isFinite (js_mul (js_mul (js_sub (Fin x) (Fin y)) (Fin \<bar>s\<bar>)) (Fin l))
      \<and> isFinite (js_mul (js_div (js_mul (js_mul (js_sub (Fin x) (Fin y)) (Fin \<bar>s\<bar>)) (Fin l)) ?ev)
                     (Fin 100))"
    if x: "0 \<le> x" "x \<le> 2 powi 100" and y: "0 \<le> y" "y \<le> 2 powi 100" for x y
  proof -
    let ?d = "js_sub (Fin x) (Fin y)"
    have d: "isFinite ?d" "magnitude ?d \<le> 2 powi 100"
      using js_sub_finite [OF x y] by simp_all
    let ?m1 = "js_mul ?d (Fin \<bar>s\<bar>)"
    have m1: "isFinite ?m1" "magnitude ?m1 \<le> 2 powi 200"
      using js_mul_finite [of ?d "Fin \<bar>s\<bar>" 100 100] d s by (simp_all add: ms)
    let ?m2 = "js_mul ?m1 (Fin l)"
    have m2: "isFinite ?m2" "magnitude ?m2 \<le> 2 powi 300"
      using js_mul_finite [of ?m1 "Fin l" 200 100] m1 l by (simp_all add: ml)
    let ?q = "js_div ?m2 ?ev"
    have q: "isFinite ?q" "magnitude ?q \<le> 2 powi 500"
      using js_div_finite [of ?m2 ?ev 300 "- 200"] m2 ev ev_low by simp_all
    have hundred: "magnitude (Fin 100) \<le> 2 powi 7" by (simp add: magnitude_def)
    have "isFinite (js_mul ?q (Fin 100))"
      using js_mul_finite(1) [of ?q "Fin 100" 500 7] q hundred by simp
    with m2(1) show ?thesis by simp
  qed
  have ec: "0 \<le> e" "0 \<le> c" using pos by simp_all
  show ?thesis
  proof (cases side)
    case Long
    with pnl [OF ec(2) c(2) ec(1) e(2)] ev cv show ?thesis
      by (simp add: calculatePnLWithSide_Long [OF pos] parseFloat_toFixed2_isFinite)
  next
    case Short
    with pnl [OF ec(1) e(2) ec(2) c(2)] ev cv show ?thesis
      by (simp add: calculatePnLWithSide_Short [OF pos] parseFloat_toFixed2_isFinite)
  qed
qed

text \<open>A product with a finite factor other than zero is NaN only if the other factor is.\<close>

lemma js_mul_NaN:
  assumes "isFinite b" "\<not> is_zero b" "a \<noteq> NaN"
  shows "js_mul a b \<noteq> NaN"
  using assms
  by (cases a; cases b)
     (auto simp: js_mul_def fl_signed_def Let_def signed_zero_def infinity_of_def)

lemma js_sub_NaN: "js_sub (Fin x) (Fin y) \<noteq> NaN"
  by (simp add: js_sub_def fl_def fl_signed_def Let_def signed_zero_def infinity_of_def)

lemma js_mul_zero:
  assumes "is_zero a"
  shows "is_zero (js_mul a b) \<or> js_mul a b = NaN"
proof -
  have "magnitude a = 0" "isFinite a" using assms by (cases a; simp add: magnitude_def)+
  then show ?thesis using assms
    by (simp add: js_mul_def fl_signed_zero signed_zero_def)
qed

lemma js_div_zero:
  assumes "is_zero a"
  shows "is_zero (js_div a b) \<or> js_div a b = NaN"
proof -
  have "magnitude a = 0" "isFinite a" using assms by (cases a; simp add: magnitude_def)+
  then show ?thesis using assms
    by (simp add: js_div_def fl_signed_zero signed_zero_def)
qed

text \<open>
  The two sides on arguments that pass the guards: the raw P\&L values are negations of
  each other, or both \<open>+0\<close> when the prices are equal; the formatted values agree under
  \<^verbatim>\<open>===\<close> with the negation, unless they are NaN.
\<close>

lemma calculatePnLWithSide_sides:
  assumes "0 < e" "0 < c" "0 < l" "s \<noteq> 0"
  shows "entryValue (calculatePnLWithSide (Fin e) (Fin c) (Fin s) Short (Fin l))
           = entryValue (calculatePnLWithSide (Fin e) (Fin c) (Fin s) Long (Fin l))"
    and "currentValue (calculatePnLWithSide (Fin e) (Fin c) (Fin s) Short (Fin l))
           = currentValue (calculatePnLWithSide (Fin e) (Fin c) (Fin s) Long (Fin l))"
    and "js_strict_eq (absolute (calculatePnLWithSide (Fin e) (Fin c) (Fin s) Short (Fin l)))
           (js_neg (absolute (calculatePnLWithSide (Fin e) (Fin c) (Fin s) Long (Fin l))))"
    and "js_strict_eq (percentage (calculatePnLWithSide (Fin e) (Fin c) (Fin s) Short (Fin l)))
           (js_neg (percentage (calculatePnLWithSide (Fin e) (Fin c) (Fin s) Long (Fin l))))
         \<or> (percentage (calculatePnLWithSide (Fin e) (Fin c) (Fin s) Short (Fin l)) = NaN
            \<and> percentage (calculatePnLWithSide (Fin e) (Fin c) (Fin s) Long (Fin l)) = NaN)"
    and "e = c \<Longrightarrow>
           absolute (calculatePnLWithSide (Fin e) (Fin c) (Fin s) Short (Fin l)) = Fin 0
         \<and> absolute (calculatePnLWithSide (Fin e) (Fin c) (Fin s) Long (Fin l)) = Fin 0"
proof -
  let ?ev = "js_mul (Fin e) (Fin \<bar>s\<bar>)"
  let ?L = "js_mul (js_mul (js_sub (Fin c) (Fin e)) (Fin \<bar>s\<bar>)) (Fin l)"
  let ?S = "js_mul (js_mul (js_sub (Fin e) (Fin c)) (Fin \<bar>s\<bar>)) (Fin l)"
  let ?PL = "js_mul (js_div ?L ?ev) (Fin 100)"
  let ?PS = "js_mul (js_div ?S ?ev) (Fin 100)"
  note long = calculatePnLWithSide_Long [OF assms]
  note short = calculatePnLWithSide_Short [OF assms]
  show "entryValue (calculatePnLWithSide (Fin e) (Fin c) (Fin s) Short (Fin l))
           = entryValue (calculatePnLWithSide (Fin e) (Fin c) (Fin s) Long (Fin l))"
    and "currentValue (calculatePnLWithSide (Fin e) (Fin c) (Fin s) Short (Fin l))
           = currentValue (calculatePnLWithSide (Fin e) (Fin c) (Fin s) Long (Fin l))"
    by (simp_all add: long short)
  have factors: "isFinite (Fin \<bar>s\<bar>)" "\<not> is_zero (Fin \<bar>s\<bar>)" "isFinite (Fin l)" "\<not> is_zero (Fin l)"
    using assms by simp_all
  have L: "?L \<noteq> NaN"
    by (intro js_mul_NaN factors js_sub_NaN)
  have zero: "?L = Fin 0 \<and> ?S = Fin 0 \<and> (is_zero ?PL \<or> ?PL = NaN) \<and> ?PS = ?PL" if "e = c"
  proof -
    have "?L = Fin 0" "?S = Fin 0"
      using that assms
      by (simp_all add: js_sub_same js_mul_def magnitude_def fl_signed_zero signed_zero_def)
    moreover from this have "is_zero ?PL \<or> ?PL = NaN"
      using js_div_zero [of "Fin 0" ?ev] js_mul_zero [of "js_div (Fin 0) ?ev" "Fin 100"]
      by (auto simp: js_mul_def)
    ultimately show ?thesis by simp
  qed
  have neg: "?S = js_neg ?L \<and> ?PS = js_neg ?PL" if "e \<noteq> c"
    using js_sub_swap [OF that [symmetric]] by (simp add: js_mul_neg_left js_div_neg_left)
  show "js_strict_eq (absolute (calculatePnLWithSide (Fin e) (Fin c) (Fin s) Short (Fin l)))
           (js_neg (absolute (calculatePnLWithSide (Fin e) (Fin c) (Fin s) Long (Fin l))))"
  proof (cases "e = c")
    case True
    from zero [OF True] show ?thesis
      by (simp add: long short parseFloat_toFixed2_zero js_strict_eq_def)
  next
    case False
    with neg parseFloat_toFixed2_symmetric [OF L] show ?thesis
      by (simp add: long short)
  qed
  show "js_strict_eq (percentage (calculatePnLWithSide (Fin e) (Fin c) (Fin s) Short (Fin l)))
           (js_neg (percentage (calculatePnLWithSide (Fin e) (Fin c) (Fin s) Long (Fin l))))
         \<or> (percentage (calculatePnLWithSide (Fin e) (Fin c) (Fin s) Short (Fin l)) = NaN
            \<and> percentage (calculatePnLWithSide (Fin e) (Fin c) (Fin s) Long (Fin l)) = NaN)"
  proof (cases "e = c")
    case True
    from zero [OF True] have same: "?PS = ?PL" and z: "is_zero ?PL \<or> ?PL = NaN" by blast+
    from z show ?thesis
    proof
      assume "is_zero ?PL"
      then have "parseFloat_toFixed2 ?PL = Fin 0" by (rule parseFloat_toFixed2_zero)
      with same show ?thesis by (simp add: long short js_strict_eq_def)
    next
      assume "?PL = NaN"
      with same show ?thesis by (simp add: long short parseFloat_toFixed2_def)
    qed
  next
    case False
    from neg [OF False] have PS: "?PS = js_neg ?PL" by blast
    show ?thesis
    proof (cases "?PL = NaN")
      case True
      with PS show ?thesis by (simp add: long short parseFloat_toFixed2_def)
    next
      case False
      from parseFloat_toFixed2_symmetric [OF False] PS show ?thesis
        by (simp add: long short)
    qed
  qed
  show "absolute (calculatePnLWithSide (Fin e) (Fin c) (Fin s) Short (Fin l)) = Fin 0
         \<and> absolute (calculatePnLWithSide (Fin e) (Fin c) (Fin s) Long (Fin l)) = Fin 0"
    if "e = c"
    using zero [OF that] by (simp add: long short parseFloat_toFixed2_zero)
qed


text \<open>
  Claim C9, as stated, fails: the guards look at the arguments only. For the finite,
  positive arguments \<open>entryPrice = currentPrice = 2^1023\<close>, \<open>size = 2\<close> and
  \<open>leverage = 1\<close> the product \<open>entryPrice * absSize\<close> is \<open>2^1024\<close>, which overflows, and
  the returned \<open>entryValue\<close> is Infinity.
\<close>

theorem calculatePnLWithSide_overflow:
  "isFinite (Fin (2 ^ 1023)) \<and> isFinite (Fin 2) \<and> isFinite (Fin 1)
   \<and> entryValue (calculatePnLWithSide (Fin (2 ^ 1023)) (Fin (2 ^ 1023)) (Fin 2) Long (Fin 1))
       = PosInfinity
   \<and> \<not> isFinite
       (entryValue (calculatePnLWithSide (Fin (2 ^ 1023)) (Fin (2 ^ 1023)) (Fin 2) Long (Fin 1)))"
  by (simp add: calculatePnLWithSide_Long js_mul_def magnitude_def fl_signed_def infinity_of_def
      parseFloat_toFixed2_def)

text \<open>
  Claim C9, amended. When one of the four numbers is NaN or infinite, or \<open>entryPrice\<close>,
  \<open>currentPrice\<close> or \<open>leverage\<close> is at most 0, or \<open>size\<close> is 0, the result is the record
  of four zeros. For every call that meets one of these guards, and for every call in
  which the two prices, the leverage and the magnitude of the size all lie between
  \<open>2^-100\<close> and \<open>2^100\<close>, the four fields of the result are finite numbers.
\<close>

theorem calculatePnLWithSide_guards:
  "((\<not> isFinite entryPrice \<or> \<not> isFinite currentPrice \<or> \<not> isFinite size'
       \<or> \<not> isFinite leverage
     \<or> js_le entryPrice (Fin 0) \<or> js_le currentPrice (Fin 0) \<or> js_le leverage (Fin 0)
     \<or> js_strict_eq size' (Fin 0))
    \<longrightarrow> calculatePnLWithSide entryPrice currentPrice size' side leverage =
          \<lparr>absolute = Fin 0, percentage = Fin 0, entryValue = Fin 0, currentValue = Fin 0\<rparr>)
   \<and> (((\<not> isFinite entryPrice \<or> \<not> isFinite currentPrice \<or> \<not> isFinite size'
         \<or> \<not> isFinite leverage
       \<or> js_le entryPrice (Fin 0) \<or> js_le currentPrice (Fin 0) \<or> js_le leverage (Fin 0)
       \<or> js_strict_eq size' (Fin 0))
      \<or> (1 / 2 ^ 100 \<le> magnitude entryPrice \<and> magnitude entryPrice \<le> 2 ^ 100
         \<and> 1 / 2 ^ 100 \<le> magnitude currentPrice \<and> magnitude currentPrice \<le> 2 ^ 100
         \<and> 1 / 2 ^ 100 \<le> magnitude size' \<and> magnitude size' \<le> 2 ^ 100
         \<and> 1 / 2 ^ 100 \<le> magnitude leverage \<and> magnitude leverage \<le> 2 ^ 100))
      \<longrightarrow> isFinite (absolute (calculatePnLWithSide entryPrice currentPrice size' side leverage))
        \<and> isFinite (percentage (calculatePnLWithSide entryPrice currentPrice size' side leverage))
        \<and> isFinite (entryValue (calculatePnLWithSide entryPrice currentPrice size' side leverage))
        \<and> isFinite (currentValue (calculatePnLWithSide entryPrice currentPrice size' side leverage)))"
proof -
  let ?G = "\<not> isFinite entryPrice \<or> \<not> isFinite currentPrice \<or> \<not> isFinite size'
       \<or> \<not> isFinite leverage
     \<or> js_le entryPrice (Fin 0) \<or> js_le currentPrice (Fin 0) \<or> js_le leverage (Fin 0)
     \<or> js_strict_eq size' (Fin 0)"
  let ?R = "calculatePnLWithSide entryPrice currentPrice size' side leverage"
  have guard: "?R = \<lparr>absolute = Fin 0, percentage = Fin 0, entryValue = Fin 0,
      currentValue = Fin 0\<rparr>" if ?G
    using that by (auto simp: calculatePnLWithSide_def zero_result_def)
  have bounded: "isFinite (absolute ?R) \<and> isFinite (percentage ?R) \<and> isFinite (entryValue ?R)
      \<and> isFinite (currentValue ?R)"
    if ng: "\<not> ?G"
      and b: "1 / 2 ^ 100 \<le> magnitude entryPrice" "magnitude entryPrice \<le> 2 ^ 100"
        "1 / 2 ^ 100 \<le> magnitude currentPrice" "magnitude currentPrice \<le> 2 ^ 100"
        "1 / 2 ^ 100 \<le> magnitude size'" "magnitude size' \<le> 2 ^ 100"
        "1 / 2 ^ 100 \<le> magnitude leverage" "magnitude leverage \<le> 2 ^ 100"
  proof -
    have positive: "\<exists>x. a = Fin x \<and> 0 < x" if "isFinite a" "\<not> js_le a (Fin 0)" for a
      using that by (cases a) (simp_all add: js_le_def)
    from ng obtain e c l where e: "entryPrice = Fin e" "0 < e"
      and c: "currentPrice = Fin c" "0 < c" and l: "leverage = Fin l" "0 < l"
      using positive [of entryPrice] positive [of currentPrice] positive [of leverage] by auto
    from ng obtain s where s: "size' = Fin s" "s \<noteq> 0"
      by (cases size') (auto simp: js_strict_eq_def)
    have p: "(2::real) powi (- 100) = 1 / 2 ^ 100" "(2::real) powi 100 = 2 ^ 100"
      by (simp_all add: power_int_minus field_simps)
    show ?thesis
      unfolding e c l s
      using calculatePnLWithSide_bounded [of e c s l side] b e(2) c(2) l(2)
      unfolding e c l s p by (simp add: magnitude_def)
  qed
  have guarded: "isFinite (absolute ?R) \<and> isFinite (percentage ?R) \<and> isFinite (entryValue ?R)
      \<and> isFinite (currentValue ?R)" if ?G
    using guard [OF that] by simp
  show ?thesis
  proof (rule conjI)
    show "?G \<longrightarrow> ?R = \<lparr>absolute = Fin 0, percentage = Fin 0, entryValue = Fin 0,
        currentValue = Fin 0\<rparr>"
      using guard by blast
  next
    show "?G \<or> (1 / 2 ^ 100 \<le> magnitude entryPrice \<and> magnitude entryPrice \<le> 2 ^ 100
         \<and> 1 / 2 ^ 100 \<le> magnitude currentPrice \<and> magnitude currentPrice \<le> 2 ^ 100
         \<and> 1 / 2 ^ 100 \<le> magnitude size' \<and> magnitude size' \<le> 2 ^ 100
         \<and> 1 / 2 ^ 100 \<le> magnitude leverage \<and> magnitude leverage \<le> 2 ^ 100)
      \<longrightarrow> isFinite (absolute ?R) \<and> isFinite (percentage ?R) \<and> isFinite (entryValue ?R)
        \<and> isFinite (currentValue ?R)"
    proof (cases ?G)
      case True
      from guarded [OF True] show ?thesis by blast
    next
      case False
      from bounded [OF False] False show ?thesis by blast
    qed
  qed
qed

theorem calculatePnLWithSide_guards_witness:
  "\<not> isFinite NaN \<and> \<not> isFinite PosInfinity \<and> js_le (Fin (- 100)) (Fin 0)
   \<and> js_le (Fin 0) (Fin 0) \<and> js_strict_eq (Fin 0) (Fin 0)
   \<and> calculatePnLWithSide NaN (Fin 110) (Fin 1) Long (Fin 1) = zero_result
   \<and> calculatePnLWithSide (Fin 100) (Fin 110) PosInfinity Long (Fin 1) = zero_result
   \<and> calculatePnLWithSide (Fin (- 100)) (Fin 110) (Fin 1) Long (Fin 1) = zero_result
   \<and> calculatePnLWithSide (Fin 100) (Fin 110) (Fin 1) Long (Fin 0) = zero_result
   \<and> calculatePnLWithSide (Fin 100) (Fin 110) (Fin 0) Short (Fin 1) = zero_result
   \<and> 1 / 2 ^ 100 \<le> magnitude (Fin 1000) \<and> magnitude (Fin 1050) \<le> 2 ^ 100
   \<and> isFinite (absolute (calculatePnLWithSide (Fin 1000) (Fin 1050) (Fin 10) Long (Fin 20)))
   \<and> isFinite (percentage (calculatePnLWithSide (Fin 1000) (Fin 1050) (Fin 10) Long (Fin 20)))
   \<and> isFinite (entryValue (calculatePnLWithSide (Fin 1000) (Fin 1050) (Fin 10) Long (Fin 20)))
   \<and> isFinite (currentValue (calculatePnLWithSide (Fin 1000) (Fin 1050) (Fin 10) Long (Fin 20)))"
  using calculatePnLWithSide_guards [of NaN "Fin 110" "Fin 1" "Fin 1" Long]
    calculatePnLWithSide_guards [of "Fin 100" "Fin 110" PosInfinity "Fin 1" Long]
    calculatePnLWithSide_guards [of "Fin (- 100)" "Fin 110" "Fin 1" "Fin 1" Long]
    calculatePnLWithSide_guards [of "Fin 100" "Fin 110" "Fin 1" "Fin 0" Long]
    calculatePnLWithSide_guards [of "Fin 100" "Fin 110" "Fin 0" "Fin 1" Short]
    calculatePnLWithSide_guards [of "Fin 1000" "Fin 1050" "Fin 10" "Fin 20" Long]
  by (simp add: zero_result_def js_le_def js_strict_eq_def magnitude_def)

text \<open>
  Claim C10, as stated, fails where the percentage is NaN: with \<open>entryPrice = 3\<close>,
  \<open>currentPrice = 1\<close>, \<open>size = 2^1023\<close> and \<open>leverage = 1\<close> the entry value overflows to
  Infinity, the P\&L to minus or plus Infinity, and the percentage is NaN on both sides,
  which is equal to nothing under \<^verbatim>\<open>===\<close>. With equal prices both sides return \<open>+0\<close>,
  whose negation is \<open>-0\<close>.
\<close>

theorem calculatePnLWithSide_percentage_nan:
  "percentage (calculatePnLWithSide (Fin 3) (Fin 1) (Fin (2 ^ 1023)) Long (Fin 1)) = NaN
   \<and> percentage (calculatePnLWithSide (Fin 3) (Fin 1) (Fin (2 ^ 1023)) Short (Fin 1)) = NaN
   \<and> \<not> js_strict_eq
         (percentage (calculatePnLWithSide (Fin 3) (Fin 1) (Fin (2 ^ 1023)) Short (Fin 1)))
         (js_neg (percentage (calculatePnLWithSide (Fin 3) (Fin 1) (Fin (2 ^ 1023)) Long (Fin 1))))
   \<and> absolute (calculatePnLWithSide (Fin 100) (Fin 100) (Fin 1) Long (Fin 1)) = Fin 0
   \<and> absolute (calculatePnLWithSide (Fin 100) (Fin 100) (Fin 1) Short (Fin 1)) = Fin 0
   \<and> js_neg (Fin 0) = NegZero"
proof -
  have d: "js_sub (Fin 1) (Fin 3) = Fin (- 2)" "js_sub (Fin 3) (Fin 1) = Fin 2"
    using fl_int [of "- 2"] fl_int [of 2] by (simp_all add: js_sub_def)
  have "percentage (calculatePnLWithSide (Fin 3) (Fin 1) (Fin (2 ^ 1023)) Long (Fin 1)) = NaN"
    by (simp add: calculatePnLWithSide_Long d js_mul_def js_div_def magnitude_def fl_signed_def
        infinity_of_def parseFloat_toFixed2_def)
  moreover
  have "percentage (calculatePnLWithSide (Fin 3) (Fin 1) (Fin (2 ^ 1023)) Short (Fin 1)) = NaN"
    by (simp add: calculatePnLWithSide_Short d js_mul_def js_div_def magnitude_def fl_signed_def
        infinity_of_def parseFloat_toFixed2_def)
  ultimately show ?thesis
    by (simp add: js_strict_eq_def unit_test_prices_equal)
qed

text \<open>
  Claim C10, amended. For finite \<open>entryPrice > 0\<close>, \<open>currentPrice > 0\<close>, \<open>leverage > 0\<close> and
  \<open>size\<close> other than 0, the results for the two sides have the same \<open>entryValue\<close> and
  \<open>currentValue\<close>, neither of them NaN; the \<open>absolute\<close> of the short side is equal under
  \<^verbatim>\<open>===\<close> to the negation of that of the long side; so is the \<open>percentage\<close>, unless it is
  NaN on both sides, which does not happen when the two prices, the leverage and the
  magnitude of the size lie between \<open>2^-100\<close> and \<open>2^100\<close>. With equal prices the
  \<open>absolute\<close> of both sides is \<open>+0\<close>.
\<close>

theorem calculatePnLWithSide_long_short:
  assumes "0 < e" "0 < c" "0 < l" "s \<noteq> 0"
  shows "entryValue (calculatePnLWithSide (Fin e) (Fin c) (Fin s) Short (Fin l))
           = entryValue (calculatePnLWithSide (Fin e) (Fin c) (Fin s) Long (Fin l))
       \<and> entryValue (calculatePnLWithSide (Fin e) (Fin c) (Fin s) Long (Fin l)) \<noteq> NaN
       \<and> currentValue (calculatePnLWithSide (Fin e) (Fin c) (Fin s) Short (Fin l))
           = currentValue (calculatePnLWithSide (Fin e) (Fin c) (Fin s) Long (Fin l))
       \<and> currentValue (calculatePnLWithSide (Fin e) (Fin c) (Fin s) Long (Fin l)) \<noteq> NaN
       \<and> js_strict_eq (absolute (calculatePnLWithSide (Fin e) (Fin c) (Fin s) Short (Fin l)))
           (js_neg (absolute (calculatePnLWithSide (Fin e) (Fin c) (Fin s) Long (Fin l))))
       \<and> (js_strict_eq (percentage (calculatePnLWithSide (Fin e) (Fin c) (Fin s) Short (Fin l)))
            (js_neg (percentage (calculatePnLWithSide (Fin e) (Fin c) (Fin s) Long (Fin l))))
          \<or> (percentage (calculatePnLWithSide (Fin e) (Fin c) (Fin s) Short (Fin l)) = NaN
             \<and> percentage (calculatePnLWithSide (Fin e) (Fin c) (Fin s) Long (Fin l)) = NaN))
       \<and> (1 / 2 ^ 100 \<le> e \<and> e \<le> 2 ^ 100 \<and> 1 / 2 ^ 100 \<le> c \<and> c \<le> 2 ^ 100
          \<and> 1 / 2 ^ 100 \<le> \<bar>s\<bar> \<and> \<bar>s\<bar> \<le> 2 ^ 100 \<and> 1 / 2 ^ 100 \<le> l \<and> l \<le> 2 ^ 100
          \<longrightarrow> js_strict_eq
                (percentage (calculatePnLWithSide (Fin e) (Fin c) (Fin s) Short (Fin l)))
                (js_neg (percentage (calculatePnLWithSide (Fin e) (Fin c) (Fin s) Long (Fin l)))))
       \<and> (e = c \<longrightarrow>
            absolute (calculatePnLWithSide (Fin e) (Fin c) (Fin s) Short (Fin l)) = Fin 0
          \<and> absolute (calculatePnLWithSide (Fin e) (Fin c) (Fin s) Long (Fin l)) = Fin 0)"
proof -
  note sides = calculatePnLWithSide_sides [OF assms]
  have factors: "isFinite (Fin \<bar>s\<bar>)" "\<not> is_zero (Fin \<bar>s\<bar>)" using assms by simp_all
  have not_nan: "entryValue (calculatePnLWithSide (Fin e) (Fin c) (Fin s) Long (Fin l)) \<noteq> NaN"
    "currentValue (calculatePnLWithSide (Fin e) (Fin c) (Fin s) Long (Fin l)) \<noteq> NaN"
    using js_mul_NaN [OF factors, of "Fin e"] js_mul_NaN [OF factors, of "Fin c"]
    by (simp_all add: calculatePnLWithSide_Long [OF assms] parseFloat_toFixed2_NaN)
  have bounded: "js_strict_eq
      (percentage (calculatePnLWithSide (Fin e) (Fin c) (Fin s) Short (Fin l)))
      (js_neg (percentage (calculatePnLWithSide (Fin e) (Fin c) (Fin s) Long (Fin l))))"
    if b: "1 / 2 ^ 100 \<le> e" "e \<le> 2 ^ 100" "1 / 2 ^ 100 \<le> c" "c \<le> 2 ^ 100"
      "1 / 2 ^ 100 \<le> \<bar>s\<bar>" "\<bar>s\<bar> \<le> 2 ^ 100" "1 / 2 ^ 100 \<le> l" "l \<le> 2 ^ 100"
  proof -
    have p: "(2::real) powi (- 100) = 1 / 2 ^ 100" "(2::real) powi 100 = 2 ^ 100"
      by (simp_all add: power_int_minus field_simps)
    have "isFinite (percentage (calculatePnLWithSide (Fin e) (Fin c) (Fin s) Long (Fin l)))"
      using calculatePnLWithSide_bounded [of e c s l Long] b unfolding p by simp
    then have "percentage (calculatePnLWithSide (Fin e) (Fin c) (Fin s) Long (Fin l)) \<noteq> NaN"
      by auto
    with sides(4) show ?thesis by blast
  qed
  from sides(1,2,3,4) sides(5) not_nan bounded show ?thesis by blast
qed

theorem calculatePnLWithSide_long_short_witness:
  "(0::real) < 1000 \<and> (0::real) < 1050 \<and> (0::real) < 20 \<and> (10::real) \<noteq> 0
   \<and> calculatePnLWithSide (Fin 1000) (Fin 1050) (Fin 10) Long (Fin 20) =
       \<lparr>absolute = Fin 10000, percentage = Fin 100, entryValue = Fin 10000,
        currentValue = Fin 10500\<rparr>
   \<and> calculatePnLWithSide (Fin 1000) (Fin 1050) (Fin 10) Short (Fin 20) =
       \<lparr>absolute = Fin (- 10000), percentage = Fin (- 100), entryValue = Fin 10000,
        currentValue = Fin 10500\<rparr>
   \<and> js_strict_eq (Fin (- 10000)) (js_neg (Fin 10000))
   \<and> js_strict_eq (Fin (- 100)) (js_neg (Fin 100))"
  using calculatePnLWithSide_long_short [of 1000 1050 20 10]
  by (simp add: unit_test_large_position unit_test_large_position_short js_strict_eq_def)

end
